theory Spec2Isabelle
  imports Main
begin

section \<open>Python values, errors and attribute values\<close>

text \<open>
  The exceptions the two modules can raise. \<open>StoreError\<close> stands for any exception of
  the HDF5 library that is not one of the named Python exceptions.
\<close>

datatype error =
    TypeError
  | ValueError
  | KeyError
  | IndexError
  | AttributeError
  | AssertionError
  | UnicodeEncodeError
  | StoreError

text \<open>
  The attribute values of the model, with Python 3 types (\<open>unicode = str\<close>, as
  \<^verbatim>\<open>hdf_writer.py\<close> sets it there). Text is a list of 8-bit characters; a
  character above 127 is one that the ASCII codec refuses.
  \<^item> \<open>PyStr\<close>: an object whose type is exactly \<open>str\<close>;
  \<^item> \<open>PyBytes\<close>: an object whose type is exactly \<open>bytes\<close>;
  \<^item> \<open>NpStr\<close>: a \<open>numpy.str_\<close> scalar (a subclass of \<open>str\<close>);
  \<^item> \<open>NpBytes\<close>: a \<open>numpy.bytes_\<close> scalar, what iterating a one-dimensional array
    of dtype \<open>S\<close> yields;
  \<^item> \<open>PySeq\<close>: a list or a tuple;
  \<^item> \<open>NdArrayS0\<close>: a zero-dimensional array of dtype \<open>S\<close>;
  \<^item> \<open>NdArrayS\<close>: an array of dtype \<open>S\<close> with at least one dimension, given by
    the items its iteration yields (scalars, or arrays of one dimension less).
\<close>

datatype pyval =
    PyNone
  | PyInt int
  | PyStr string
  | PyBytes string
  | NpStr string
  | NpBytes string
  | PySeq "pyval list"
  | NdArrayS0 string
  | NdArrayS "pyval list"

datatype pyslice = Slice (start: "int option") (stop: "int option") (step: "int option")

type_synonym labels_dict = "(string \<times> pyslice list) list"

text \<open>
  What a descriptor's \<open>attrs\<close> dictionary holds under a key, and what the store holds
  as an attribute: a plain value, the \<open>labels\<close> dictionary (region name to tuple of
  slices, in the dictionary's order), or a region reference (the dataset's path and the
  selection).
\<close>

datatype attr_value =
    Plain pyval
  | Labels labels_dict
  | RegionRef "string list" "pyslice list"

type_synonym attrs_dict = "(string \<times> attr_value) list"

text \<open>Assignment \<^verbatim>\<open>d[k] = v\<close> on an ordered dictionary.\<close>

fun dict_set :: "('k \<times> 'v) list \<Rightarrow> 'k \<Rightarrow> 'v \<Rightarrow> ('k \<times> 'v) list" where
  "dict_set [] k v = [(k, v)]"
| "dict_set ((k', v') # kvs) k v =
     (if k' = k then (k, v) # kvs else (k', v') # dict_set kvs k v)"

section \<open>Decimal text of integers\<close>

fun digits :: "nat \<Rightarrow> string" where
  "digits n =
     (if n < 10 then [char_of (48 + n)]
      else digits (n div 10) @ [char_of (48 + n mod 10)])"

declare digits.simps [simp del]

definition int_str :: "int \<Rightarrow> string" where
  \<comment> \<open>\<^verbatim>\<open>str(i)\<close>\<close>
  "int_str i = (if i < 0 then CHR ''-'' # digits (nat (- i)) else digits (nat i))"

definition zfill :: "nat \<Rightarrow> string \<Rightarrow> string" where
  "zfill w s = replicate (w - length s) CHR ''0'' @ s"

definition format_03d :: "int \<Rightarrow> string" where
  \<comment> \<open>\<^verbatim>\<open>'{:03d}'.format(i)\<close>: width 3 with the sign, zeros after the sign.\<close>
  "format_03d i =
     (if i < 0 then CHR ''-'' # zfill 2 (digits (nat (- i))) else zfill 3 (digits (nat i)))"

section \<open>The attribute normalizer\<close>

text \<open>
  \<^verbatim>\<open>np.array(v, dtype='S')\<close>. Text is encoded with the ASCII codec; an item read
  back from an array of dtype \<open>S\<close> has lost its trailing NUL bytes.
\<close>

definition strip_nul :: "string \<Rightarrow> string" where
  "strip_nul s = rev (dropWhile (\<lambda>c. c = char_of (0::nat)) (rev s))"

definition encode_ascii :: "string \<Rightarrow> error + string" where
  "encode_ascii s =
     (if list_all (\<lambda>c. (of_char c :: nat) < 128) s then Inr (strip_nul s)
      else Inl UnicodeEncodeError)"

fun sequence :: "(error + 'a) list \<Rightarrow> error + 'a list" where
  "sequence [] = Inr []"
| "sequence (r # rs) =
     (case r of Inl e \<Rightarrow> Inl e
      | Inr x \<Rightarrow> (case sequence rs of Inl e \<Rightarrow> Inl e | Inr xs \<Rightarrow> Inr (x # xs)))"

fun arr_shape :: "pyval \<Rightarrow> nat list" where
  "arr_shape (NdArrayS xs) = length xs # (case xs of [] \<Rightarrow> [] | x # _ \<Rightarrow> arr_shape x)"
| "arr_shape _ = []"

fun as_item :: "pyval \<Rightarrow> pyval" where
  "as_item (NdArrayS0 b) = NpBytes b"
| "as_item v = v"

fun np_array_S :: "pyval \<Rightarrow> error + pyval" where
  "np_array_S PyNone = Inr (NdArrayS0 ''None'')"
| "np_array_S (PyInt i) = Inr (NdArrayS0 (int_str i))"
| "np_array_S (PyStr s) =
     (case encode_ascii s of Inl e \<Rightarrow> Inl e | Inr b \<Rightarrow> Inr (NdArrayS0 b))"
| "np_array_S (PyBytes b) = Inr (NdArrayS0 (strip_nul b))"
| "np_array_S (NpStr s) =
     (case encode_ascii s of Inl e \<Rightarrow> Inl e | Inr b \<Rightarrow> Inr (NdArrayS0 b))"
| "np_array_S (NpBytes b) = Inr (NdArrayS0 (strip_nul b))"
| "np_array_S (PySeq xs) =
     (case sequence (map np_array_S xs) of
        Inl e \<Rightarrow> Inl e
      | Inr ys \<Rightarrow>
          (case ys of
             [] \<Rightarrow> Inr (NdArrayS [])
           | y # _ \<Rightarrow>
               if list_all (\<lambda>z. arr_shape z = arr_shape y) ys
               then Inr (NdArrayS (map as_item ys))
               else Inl ValueError))"
| "np_array_S (NdArrayS0 b) = Inr (NdArrayS0 b)"
| "np_array_S (NdArrayS xs) = Inr (NdArrayS xs)"

text \<open>\<^verbatim>\<open>isinstance(v, Iterable)\<close>: strings, bytes, sequences and arrays.\<close>

fun is_iterable :: "pyval \<Rightarrow> bool" where
  "is_iterable PyNone = False"
| "is_iterable (PyInt _) = False"
| "is_iterable _ = True"

text \<open>
  \<^verbatim>\<open>[x for x in v]\<close> on an iterable value. Text yields its characters as
  \<open>str\<close>, bytes yield integers, and a zero-dimensional array raises \<open>TypeError\<close>.
\<close>

fun py_iter :: "pyval \<Rightarrow> error + pyval list" where
  "py_iter (PyStr s) = Inr (map (\<lambda>c. PyStr [c]) s)"
| "py_iter (NpStr s) = Inr (map (\<lambda>c. PyStr [c]) s)"
| "py_iter (PyBytes b) = Inr (map (\<lambda>c. PyInt (int (of_char c))) b)"
| "py_iter (NpBytes b) = Inr (map (\<lambda>c. PyInt (int (of_char c))) b)"
| "py_iter (PySeq xs) = Inr xs"
| "py_iter (NdArrayS xs) = Inr xs"
| "py_iter _ = Inl TypeError"

fun is_str_or_bytes :: "pyval \<Rightarrow> bool" where
  \<comment> \<open>\<^verbatim>\<open>type(x) in [str, unicode, bytes]\<close>: the exact type, no subclass\<close>
  "is_str_or_bytes (PyStr _) = True"
| "is_str_or_bytes (PyBytes _) = True"
| "is_str_or_bytes _ = False"

text \<open>
  \<^verbatim>\<open>clean_string_att\<close> on a plain value. A \<open>TypeError\<close> inside the \<open>try\<close> is raised
  again as a \<open>TypeError\<close>; any other exception passes through.
\<close>

definition clean_pyval :: "pyval \<Rightarrow> error + pyval" where
  "clean_pyval att_val =
     (if is_iterable att_val then
        (case att_val of
           PyStr s \<Rightarrow> Inr att_val
         | _ \<Rightarrow>
            (case py_iter att_val of
               Inl e \<Rightarrow> Inl e
             | Inr xs \<Rightarrow>
                 if list_ex is_str_or_bytes xs then np_array_S att_val
                 else (case att_val of NpStr s \<Rightarrow> Inr (PyStr s) | _ \<Rightarrow> Inr att_val)))
      else Inr att_val)"

text \<open>
  \<^verbatim>\<open>str(d)\<close> of a \<open>labels\<close> dictionary, for region names without quotes,
  backslashes or control characters.
\<close>

definition opt_int_str :: "int option \<Rightarrow> string" where
  "opt_int_str x = (case x of None \<Rightarrow> ''None'' | Some i \<Rightarrow> int_str i)"

fun join :: "string \<Rightarrow> string list \<Rightarrow> string" where
  "join sep [] = []"
| "join sep [x] = x"
| "join sep (x # y # ys) = x @ sep @ join sep (y # ys)"

definition slice_str :: "pyslice \<Rightarrow> string" where
  "slice_str sl =
     ''slice('' @ opt_int_str (start sl) @ '', '' @ opt_int_str (stop sl) @ '', '' @
       opt_int_str (step sl) @ '')''"

definition tuple_str :: "pyslice list \<Rightarrow> string" where
  "tuple_str sls =
     (case sls of
        [sl] \<Rightarrow> ''('' @ slice_str sl @ '',)''
      | _ \<Rightarrow> ''('' @ join '', '' (map slice_str sls) @ '')'')"

definition dict_str :: "labels_dict \<Rightarrow> string" where
  "dict_str d =
     ''{'' @ join '', '' (map (\<lambda>(k, sls). [CHR 0x27] @ k @ [CHR 0x27] @ '': '' @ tuple_str sls) d)
       @ ''}''"

text \<open>
  \<^verbatim>\<open>clean_string_att\<close>. A dictionary is iterable and yields its keys, which are
  text; numpy turns a dictionary into a zero-dimensional array of its \<open>str\<close>. A region
  reference is not iterable.
\<close>

definition clean_string_att :: "attr_value \<Rightarrow> error + attr_value" where
  "clean_string_att att_val =
     (case att_val of
        Plain v \<Rightarrow> (case clean_pyval v of Inl e \<Rightarrow> Inl e | Inr v' \<Rightarrow> Inr (Plain v'))
      | Labels d \<Rightarrow>
          (if d = [] then Inr att_val
           else (case encode_ascii (dict_str d) of
                   Inl e \<Rightarrow> Inl e
                 | Inr b \<Rightarrow> Inr (Plain (NdArrayS0 b))))
      | RegionRef p sel \<Rightarrow> Inr att_val)"

section \<open>The descriptor model (microdata.py)\<close>

text \<open>A numpy array given as data: its shape, its dtype and its elements, flattened.\<close>

record payload =
  shape :: "nat list"
  pdtype :: string
  elems :: "int list"

text \<open>
  A \<open>MicroDataset\<close> after construction. \<open>maxshape\<close> and \<open>chunking\<close> are tuples (or
  \<open>None\<close>); an entry of a tuple may be \<open>None\<close>.
\<close>

record microdataset =
  name :: string
  parent :: string
  attrs :: attrs_dict
  data :: "payload option"
  dtype :: "string option"
  compression :: "string option"
  chunking :: "int option list option"
  resizable :: bool
  maxshape :: "int option list option"

text \<open>
  The tree of descriptors: a \<open>MicroDataGroup\<close> with its name, parent path,
  attributes, \<open>indexed\<close> flag and children, or a \<open>MicroDataset\<close> (with its
  subclasses, which only fix arguments of its constructor). The model is a tree: no
  descriptor object occurs twice in it. An instance of the base class \<open>MicroData\<close>
  that is neither a group nor a dataset is not modelled.
\<close>

datatype microdata =
    MicroDataGroup (gname: string) (gparent: string) (gattrs: attrs_dict) (indexed: bool)
      (children: "microdata list")
  | MicroDataset (dset: microdataset)

text \<open>
  An argument \<open>maxshape\<close> or \<open>chunking\<close> of the constructor: a single number, or a
  list or tuple whose entries are numbers or \<open>None\<close>.
\<close>

datatype shape_arg = One int | Many "int option list"

definition make_iterable :: "shape_arg option \<Rightarrow> int option list option" where
  "make_iterable param =
     (case param of
        None \<Rightarrow> None
      | Some (One i) \<Rightarrow> Some [Some i]
      | Some (Many xs) \<Rightarrow> Some xs)"

definition valid_shapes :: "int option list option \<Rightarrow> bool \<Rightarrow> bool" where
  "valid_shapes param none_ok =
     (case param of
        None \<Rightarrow> True
      | Some items \<Rightarrow>
          list_all (\<lambda>item. case item of None \<Rightarrow> none_ok | Some i \<Rightarrow> 0 < i \<and> i mod 1 = 0) items)"

definition valid_compressions :: "string option list" where
  "valid_compressions = [None, Some ''gzip'', Some ''lzf'']"

text \<open>
  The checks of \<open>maxshape\<close> against the data (lines 246 to 256) and of \<open>chunking\<close>
  against the shape that bounds it (lines 258 to 275), each \<open>None\<close> when it passes.
\<close>

definition check_maxshape :: "payload option \<Rightarrow> int option list option \<Rightarrow> error option" where
  "check_maxshape dat mxs =
     (case mxs of
        None \<Rightarrow> None
      | Some ms \<Rightarrow>
          (case dat of
             Some d \<Rightarrow>
               if length (shape d) \<noteq> length ms then Some ValueError
               else if list_ex (\<lambda>(d_size, m_size).
                          case m_size of None \<Rightarrow> False | Some m \<Rightarrow> m < int d_size)
                        (zip (shape d) ms)
               then Some ValueError
               else None
           | None \<Rightarrow> if list_ex (\<lambda>item. item = None) ms then Some ValueError else None))"

definition data_shape :: "payload option \<Rightarrow> int option list option \<Rightarrow> error + int option list"
  where
  \<comment> \<open>\<^verbatim>\<open>maxshape\<close> if it is given, else \<^verbatim>\<open>data.shape\<close>\<close>
  "data_shape dat mxs =
     (case mxs of
        Some ms \<Rightarrow> Inr ms
      | None \<Rightarrow>
          (case dat of
             Some d \<Rightarrow> Inr (map (\<lambda>n. Some (int n)) (shape d))
           | None \<Rightarrow> Inl AttributeError))"

definition check_chunking ::
  "payload option \<Rightarrow> int option list option \<Rightarrow> int option list option \<Rightarrow> error option" where
  "check_chunking dat mxs chk =
     (case chk of
        None \<Rightarrow> None
      | Some cs \<Rightarrow>
          if list_ex (\<lambda>item. item = None) cs then Some ValueError
          else
            (case data_shape dat mxs of
               Inl e \<Rightarrow> Some e
             | Inr ds \<Rightarrow>
                 if length ds \<noteq> length cs then Some ValueError
                 else if list_ex (\<lambda>(ch, mx).
                            case mx of None \<Rightarrow> False
                            | Some m \<Rightarrow> (case ch of None \<Rightarrow> False | Some c \<Rightarrow> c > m))
                          (zip cs ds)
                 then Some ValueError
                 else None))"

text \<open>
  \<^verbatim>\<open>MicroDataset.__init__\<close>. The arguments have the types the docstring gives
  them; \<open>attrs\<close> is a dictionary or \<open>None\<close>, and a dtype given as text names a dtype
  of numpy. An \<open>assert\<close> that fails is the exception \<open>AssertionError\<close>.
\<close>

definition MicroDataset_init ::
  "string \<Rightarrow> payload option \<Rightarrow> string option \<Rightarrow> string option \<Rightarrow> shape_arg option \<Rightarrow>
   string option \<Rightarrow> bool \<Rightarrow> shape_arg option \<Rightarrow> attrs_dict option \<Rightarrow> error + microdataset"
  where
  "MicroDataset_init nm dat dt compr chunk_arg par resiz maxshape_arg ats =
     (let par' = (case par of None \<Rightarrow> ''/'' | Some p \<Rightarrow> p);
          ats' = (case ats of None \<Rightarrow> [] | Some a \<Rightarrow> a);
          mxs = make_iterable maxshape_arg;
          chk = make_iterable chunk_arg
      in if \<not> valid_shapes mxs True then Inl AssertionError
         else if \<not> valid_shapes chk False then Inl AssertionError
         else if compr \<notin> set valid_compressions then Inl ValueError
         else if dat = None \<and> mxs = None then Inl ValueError
         else
           (case check_maxshape dat mxs of
              Some e \<Rightarrow> Inl e
            | None \<Rightarrow>
                (case check_chunking dat mxs chk of
                   Some e \<Rightarrow> Inl e
                 | None \<Rightarrow>
                     Inr \<lparr> name = nm, parent = par', attrs = ats', data = dat,
                           dtype = (case dat of
                                      Some d \<Rightarrow> (case dt of None \<Rightarrow> Some (pdtype d) | Some t \<Rightarrow> dt)
                                    | None \<Rightarrow> dt),
                           compression = compr, chunking = chk, resizable = resiz,
                           maxshape = mxs \<rparr>)))"

text \<open>
  \<^verbatim>\<open>MicroDataGroup.add_children\<close> on a list of descriptors: each child gets the
  parent path \<^verbatim>\<open>self.parent + self.name\<close>.
\<close>

fun set_parent :: "string \<Rightarrow> microdata \<Rightarrow> microdata" where
  "set_parent p (MicroDataGroup n _ a i cs) = MicroDataGroup n p a i cs"
| "set_parent p (MicroDataset d) = MicroDataset (d\<lparr>parent := p\<rparr>)"

definition add_children :: "microdata \<Rightarrow> microdata list \<Rightarrow> microdata" where
  "add_children g chs =
     (case g of
        MicroDataGroup n p a i cs \<Rightarrow> MicroDataGroup n p a i (cs @ map (set_parent (p @ n)) chs)
      | MicroDataset d \<Rightarrow> g)"

text \<open>
  \<^verbatim>\<open>MicroDataGroup.__init__\<close>. \<open>fqdn\<close> is what \<^verbatim>\<open>socket.getfqdn()\<close> returns
  and \<open>stamp\<close> what \<^verbatim>\<open>get_time_stamp()\<close> of \<^verbatim>\<open>io_utils\<close> returns on the
  host at that moment, both text.
\<close>

definition MicroDataGroup_init ::
  "string \<Rightarrow> string \<Rightarrow> string \<Rightarrow> string option \<Rightarrow> attrs_dict option \<Rightarrow> microdata list option \<Rightarrow>
   microdata" where
  "MicroDataGroup_init fqdn stamp nm par ats chs =
     (let par' = (case par of None \<Rightarrow> ''/'' | Some p \<Rightarrow> p);
          a0 = (case ats of None \<Rightarrow> [] | Some a \<Rightarrow> a);
          a1 = dict_set a0 ''machine_id'' (Plain (PyStr fqdn));
          a2 = dict_set a1 ''timestamp'' (Plain (PyStr stamp));
          ind = (nm \<noteq> [] \<and> last nm = CHR ''_'');
          g = MicroDataGroup nm par' a2 ind []
      in case chs of None \<Rightarrow> g | Some cs \<Rightarrow> add_children g cs)"

section \<open>The store (the HDF5 file behind h5py)\<close>

text \<open>
  An object of the file is found by its path, the list of names from the root; the root
  group is the empty path. A handle of h5py is the path of its object, and its
  \<^verbatim>\<open>.name\<close> is the path as text. A group lists the names of its members in
  HDF5's order, by name.
\<close>

datatype content = Fill | Written "int list"

record h5dataset =
  ds_shape :: "nat list"
  ds_dtype :: "string option"
  ds_maxshape :: "int option list option"
  ds_chunks :: "int option list option"
  ds_compression :: "string option"
  ds_content :: content

datatype h5obj = H5Group (keys_of: "string list") | H5Dataset h5dataset

text \<open>The arguments of one call of \<^verbatim>\<open>create_dataset\<close>.\<close>

record dset_request =
  rq_name :: string
  rq_shape :: "int option list option"
  rq_data :: "payload option"
  rq_dtype :: "string option"
  rq_chunks :: "int option list option"
  rq_compression :: "string option"
  rq_maxshape :: "int option list option"

datatype warning = RegionSizeMismatch string | NoRegionLabels string

text \<open>
  The state the writer works on: the objects of the file, the attributes of each object,
  whether the file has been closed, the warnings issued so far, and the store's own
  grounds to refuse a dataset (an incompatible combination of chunks and compression, a
  full disk), which the writer does not know. Every function below is given an open
  file; \<open>closed\<close> records that the writer flushed and closed it before raising.
  The store takes any attribute value.
\<close>

record h5state =
  objs :: "string list \<Rightarrow> h5obj option"
  h5attrs :: "string list \<Rightarrow> attrs_dict"
  closed :: bool
  warned :: "warning list"
  refuses :: "dset_request \<Rightarrow> error option"

fun split_on :: "char \<Rightarrow> string \<Rightarrow> string list" where
  \<comment> \<open>\<^verbatim>\<open>s.split(c)\<close>: never empty\<close>
  "split_on c [] = [[]]"
| "split_on c (x # xs) =
     (if x = c then [] # split_on c xs
      else (case split_on c xs of
              [] \<Rightarrow> [[x]]
            | w # ws \<Rightarrow> (x # w) # ws))"

definition split_path :: "string \<Rightarrow> string list" where
  "split_path p = filter (\<lambda>w. w \<noteq> []) (split_on CHR ''/'' p)"

definition path_name :: "string list \<Rightarrow> string" where
  \<comment> \<open>\<^verbatim>\<open>.name\<close> of the object at a path\<close>
  "path_name h = CHR ''/'' # join ''/'' h"

definition h5_get :: "h5state \<Rightarrow> string \<Rightarrow> error + string list" where
  \<comment> \<open>\<^verbatim>\<open>h5_file[path]\<close>: the empty text names no object\<close>
  "h5_get st p =
     (if p = [] then Inl KeyError
      else (case objs st (split_path p) of None \<Rightarrow> Inl KeyError | Some _ \<Rightarrow> Inr (split_path p)))"

definition is_group :: "h5state \<Rightarrow> string list \<Rightarrow> bool" where
  "is_group st h = (case objs st h of Some (H5Group _) \<Rightarrow> True | _ \<Rightarrow> False)"

definition h5_keys :: "h5state \<Rightarrow> string list \<Rightarrow> string list" where
  "h5_keys st h = (case objs st h of Some (H5Group ks) \<Rightarrow> ks | _ \<Rightarrow> [])"

fun str_less :: "string \<Rightarrow> string \<Rightarrow> bool" where
  "str_less [] [] = False"
| "str_less [] (y # ys) = True"
| "str_less (x # xs) [] = False"
| "str_less (x # xs) (y # ys) =
     (if (of_char x :: nat) < of_char y then True
      else if x = y then str_less xs ys
      else False)"

fun insert_key :: "string \<Rightarrow> string list \<Rightarrow> string list" where
  "insert_key k [] = [k]"
| "insert_key k (x # xs) = (if str_less k x then k # x # xs else x # insert_key k xs)"

definition valid_name :: "string \<Rightarrow> bool" where
  \<comment> \<open>a name is one component of a path; the modelled store refuses any other\<close>
  "valid_name nm = (nm \<noteq> [] \<and> CHR ''/'' \<notin> set nm)"

definition add_member :: "h5state \<Rightarrow> string list \<Rightarrow> string \<Rightarrow> h5obj \<Rightarrow> h5state" where
  "add_member st h nm obj =
     st\<lparr>objs := (objs st)(h \<mapsto> H5Group (insert_key nm (h5_keys st h)), h @ [nm] \<mapsto> obj)\<rparr>"

definition h5_create_group :: "h5state \<Rightarrow> string list \<Rightarrow> string \<Rightarrow> error + (string list \<times> h5state)"
  where
  \<comment> \<open>\<^verbatim>\<open>h5_group.create_group(name)\<close>: \<open>ValueError\<close> when the name exists\<close>
  "h5_create_group st h nm =
     (if nm \<in> set (h5_keys st h) then Inl ValueError
      else if \<not> valid_name nm then Inl StoreError
      else Inr (h @ [nm], add_member st h nm (H5Group [])))"

definition all_dims :: "int option list \<Rightarrow> nat list option" where
  \<comment> \<open>a shape with every dimension a number that is not negative\<close>
  "all_dims ds =
     (if list_all (\<lambda>d. case d of None \<Rightarrow> False | Some i \<Rightarrow> 0 \<le> i) ds
      then Some (map (\<lambda>d. nat (the d)) ds) else None)"

definition h5_create_dataset ::
  "h5state \<Rightarrow> string list \<Rightarrow> dset_request \<Rightarrow> error + (string list \<times> h5state)" where
  \<comment> \<open>\<^verbatim>\<open>h5_group.create_dataset(name, shape, data=, dtype=, chunks=, compression=,
     maxshape=)\<close>: with data the dataset holds it, without it holds the fill value\<close>
  "h5_create_dataset st h rq =
     (if rq_name rq \<in> set (h5_keys st h) then Inl ValueError
      else if \<not> valid_name (rq_name rq) then Inl StoreError
      else
        (case refuses st rq of
           Some e \<Rightarrow> Inl e
         | None \<Rightarrow>
             (case rq_data rq of
                Some d \<Rightarrow>
                  Inr (h @ [rq_name rq],
                       add_member st h (rq_name rq)
                         (H5Dataset \<lparr> ds_shape = shape d, ds_dtype = rq_dtype rq,
                            ds_maxshape = rq_maxshape rq, ds_chunks = rq_chunks rq,
                            ds_compression = rq_compression rq,
                            ds_content = Written (elems d) \<rparr>))
              | None \<Rightarrow>
                  (case rq_shape rq of
                     None \<Rightarrow> Inl TypeError
                   | Some ds \<Rightarrow>
                       (case all_dims ds of
                          None \<Rightarrow> Inl TypeError
                        | Some sh \<Rightarrow>
                            Inr (h @ [rq_name rq],
                                 add_member st h (rq_name rq)
                                   (H5Dataset \<lparr> ds_shape = sh, ds_dtype = rq_dtype rq,
                                      ds_maxshape = rq_maxshape rq, ds_chunks = rq_chunks rq,
                                      ds_compression = rq_compression rq,
                                      ds_content = Fill \<rparr>)))))))"

definition h5_set_attr :: "h5state \<Rightarrow> string list \<Rightarrow> string \<Rightarrow> attr_value \<Rightarrow> h5state" where
  \<comment> \<open>\<^verbatim>\<open>h5_obj.attrs[key] = value\<close>\<close>
  "h5_set_attr st h k v = st\<lparr>h5attrs := (h5attrs st)(h := dict_set (h5attrs st h) k v)\<rparr>"

definition flush_close :: "h5state \<Rightarrow> h5state" where
  \<comment> \<open>\<^verbatim>\<open>h5_file.flush(); h5_file.close()\<close>\<close>
  "flush_close st = st\<lparr>closed := True\<rparr>"

definition dset_shape :: "h5state \<Rightarrow> string list \<Rightarrow> nat list" where
  \<comment> \<open>\<^verbatim>\<open>dataset.shape\<close>\<close>
  "dset_shape st h = (case objs st h of Some (H5Dataset d) \<Rightarrow> ds_shape d | _ \<Rightarrow> [])"

section \<open>The writer (hdf_writer.py)\<close>

text \<open>
  A function of the writer returns its value and the new state, or the exception it
  raises and the state it leaves behind.
\<close>

type_synonym 'a result = "(error \<times> h5state) + ('a \<times> h5state)"

subsection \<open>Names of indexed groups\<close>

definition is_prefix :: "'a list \<Rightarrow> 'a list \<Rightarrow> bool" where
  \<comment> \<open>\<^verbatim>\<open>key.startswith(sub)\<close>, on text and on paths alike\<close>
  "is_prefix sub key = (take (length sub) key = sub)"

fun contains :: "string \<Rightarrow> string \<Rightarrow> bool" where
  \<comment> \<open>\<^verbatim>\<open>sub in key\<close>\<close>
  "contains sub [] = (sub = [])"
| "contains sub (y # ys) = (is_prefix sub (y # ys) \<or> contains sub ys)"

definition is_space :: "char \<Rightarrow> bool" where
  "is_space c = (let n = (of_char c :: nat) in (9 \<le> n \<and> n \<le> 13) \<or> (28 \<le> n \<and> n \<le> 32))"

definition is_digit :: "char \<Rightarrow> bool" where
  "is_digit c = (let n = (of_char c :: nat) in 48 \<le> n \<and> n \<le> 57)"

definition strip :: "string \<Rightarrow> string" where
  "strip s = rev (dropWhile is_space (rev (dropWhile is_space s)))"

definition digits_value :: "string \<Rightarrow> nat" where
  "digits_value ds = foldl (\<lambda>acc c. 10 * acc + (of_char c - 48)) 0 ds"

definition py_int :: "string \<Rightarrow> int option" where
  \<comment> \<open>\<^verbatim>\<open>int(s)\<close> on text without underscores: blanks around, a sign, decimal digits;
     \<open>None\<close> is the \<open>ValueError\<close>\<close>
  "py_int s =
     (let t = strip s;
          (neg, ds) = (case t of
                         [] \<Rightarrow> (False, [])
                       | c # cs \<Rightarrow>
                           if c = CHR ''-'' then (True, cs)
                           else if c = CHR ''+'' then (False, cs)
                           else (False, t))
      in if ds \<noteq> [] \<and> list_all is_digit ds
         then Some (if neg then - int (digits_value ds) else int (digits_value ds))
         else None)"

text \<open>
  \<^verbatim>\<open>h5_group.keys()[i]\<close> (line 259). On Python 3 the keys of a group are a view
  (\<^verbatim>\<open>KeysViewHDF5\<close>): it can be iterated, as line 255 does, but not indexed, and
  the expression raises \<open>TypeError\<close> whatever the keys and the index are.
\<close>

definition keys_getitem :: "string list \<Rightarrow> nat \<Rightarrow> error + string" where
  "keys_getitem ks i = Inl TypeError"

text \<open>
  Lines 254 to 261: the name of an indexed group among the members \<open>ks\<close> of its parent.
  \<open>previous\<close> holds the positions of the keys that contain the name; line 260 parses
  the text after the last underscore of the key that line 259 hands it.
\<close>

definition indexed_name :: "string list \<Rightarrow> string \<Rightarrow> error + string" where
  "indexed_name ks nm =
     (let previous = filter (\<lambda>i. contains nm (ks ! i)) [0 ..< length ks]
      in if length previous = 0 then Inr (nm @ format_03d 0)
         else
           (case keys_getitem ks (last previous) of
              Inl e \<Rightarrow> Inl e
            | Inr lst \<Rightarrow>
                (case py_int (last (split_on CHR ''_'' lst)) of
                   None \<Rightarrow> Inl ValueError
                 | Some i \<Rightarrow> Inr (nm @ format_03d (i + 1)))))"

subsection \<open>Groups\<close>

text \<open>
  The loop of \<^verbatim>\<open>_create_group\<close> over the attributes: a value that is \<open>None\<close> is
  skipped, every other is normalized and stored; an exception of the normalizer leaves
  the attributes stored before it.
\<close>

fun write_group_attrs :: "h5state \<Rightarrow> string list \<Rightarrow> attrs_dict \<Rightarrow> unit result" where
  "write_group_attrs st h [] = Inr ((), st)"
| "write_group_attrs st h ((key, val) # rest) =
     (if val = Plain PyNone then write_group_attrs st h rest
      else (case clean_string_att val of
              Inl e \<Rightarrow> Inl (e, st)
            | Inr v \<Rightarrow> write_group_attrs (h5_set_attr st h key v) h rest))"

text \<open>
  The \<open>try\<close> of \<^verbatim>\<open>_create_group\<close>: a \<open>ValueError\<close> of \<open>create_group\<close> leads to
  \<^verbatim>\<open>h5_group[name]\<close>, any other exception to flush, close and raise.
\<close>

definition attach_group :: "h5state \<Rightarrow> string list \<Rightarrow> string \<Rightarrow> string list result" where
  "attach_group st h nm =
     (case h5_create_group st h nm of
        Inr (h', st') \<Rightarrow> Inr (h', st')
      | Inl ValueError \<Rightarrow>
          (if nm \<in> set (h5_keys st h) then Inr (h @ [nm], st) else Inl (KeyError, st))
      | Inl e \<Rightarrow> Inl (e, flush_close st))"

text \<open>
  \<^verbatim>\<open>HDFwriter._create_group\<close>. It returns the handle and the descriptor, whose
  name it has completed when the group is indexed.
\<close>

definition create_group :: "h5state \<Rightarrow> string list \<Rightarrow> microdata \<Rightarrow> (string list \<times> microdata) result"
  where
  "create_group st h5_group micro_group =
     (case micro_group of
        MicroDataset d \<Rightarrow> Inl (AssertionError, st)
      | MicroDataGroup nm par ats ind chs \<Rightarrow>
          if \<not> is_group st h5_group then Inl (AssertionError, st)
          else
            (case (if ind then indexed_name (h5_keys st h5_group) nm else Inr nm) of
               Inl e \<Rightarrow> Inl (e, st)
             | Inr nm' \<Rightarrow>
                 (case attach_group st h5_group nm' of
                    Inl e \<Rightarrow> Inl e
                  | Inr (h, st1) \<Rightarrow>
                      (case write_group_attrs st1 h ats of
                         Inl e \<Rightarrow> Inl e
                       | Inr (u, st2) \<Rightarrow> Inr ((h, MicroDataGroup nm' par ats ind chs), st2)))))"

subsection \<open>Datasets\<close>

definition create_simple_dset :: "h5state \<Rightarrow> string list \<Rightarrow> microdataset \<Rightarrow> error + (string list \<times> h5state)"
  where
  "create_simple_dset st h microdset =
     (case data microdset of
        None \<Rightarrow> Inl AttributeError
      | Some d \<Rightarrow>
          h5_create_dataset st h
            \<lparr> rq_name = name microdset, rq_shape = None, rq_data = Some d,
              rq_dtype = Some (pdtype d), rq_chunks = chunking microdset,
              rq_compression = compression microdset, rq_maxshape = None \<rparr>)"

definition create_empty_dset :: "h5state \<Rightarrow> string list \<Rightarrow> microdataset \<Rightarrow> error + (string list \<times> h5state)"
  where
  "create_empty_dset st h microdset =
     h5_create_dataset st h
       \<lparr> rq_name = name microdset, rq_shape = maxshape microdset, rq_data = None,
         rq_dtype = dtype microdset, rq_chunks = chunking microdset,
         rq_compression = compression microdset, rq_maxshape = None \<rparr>"

definition create_resizeable_dset ::
  "h5state \<Rightarrow> string list \<Rightarrow> microdataset \<Rightarrow> error + (string list \<times> h5state)" where
  "create_resizeable_dset st h microdset =
     (case data microdset of
        None \<Rightarrow> Inl AttributeError
      | Some d \<Rightarrow>
          (let max_shape = map (\<lambda>_. None) [0 ..< length (shape d)]
           in h5_create_dataset st h
                \<lparr> rq_name = name microdset, rq_shape = None, rq_data = Some d,
                  rq_dtype = Some (pdtype d), rq_chunks = chunking microdset,
                  rq_compression = compression microdset, rq_maxshape = Some max_shape \<rparr>))"

text \<open>
  \<^verbatim>\<open>__write_region_references\<close>: one region reference for each name whose tuple has
  as many slices as the dataset has dimensions; the first other one warns and raises.
  The store makes a region reference of any such tuple.
\<close>

fun write_region_references :: "h5state \<Rightarrow> string list \<Rightarrow> labels_dict \<Rightarrow> unit result" where
  "write_region_references st dataset [] = Inr ((), st)"
| "write_region_references st dataset ((sl, sls) # rest) =
     (if length sls = length (dset_shape st dataset)
      then write_region_references (h5_set_attr st dataset sl (RegionRef dataset sls)) dataset rest
      else Inl (ValueError, st\<lparr>warned := warned st @ [RegionSizeMismatch sl]\<rparr>))"

text \<open>
  Lines 367 to 372: the first position of the first region's tuple whose slice has a
  start.
\<close>

fun find_dim :: "pyslice list \<Rightarrow> nat option" where
  "find_dim [] = None"
| "find_dim (slice_obj # rest) =
     (if start slice_obj \<noteq> None then Some 0
      else (case find_dim rest of None \<Rightarrow> None | Some n \<Rightarrow> Some (Suc n)))"

text \<open>\<^verbatim>\<open>xs[i] = v\<close> on a list: a negative index counts from the end.\<close>

definition list_set :: "'a list \<Rightarrow> int \<Rightarrow> 'a \<Rightarrow> error + 'a list" where
  "list_set xs i v =
     (if 0 \<le> i \<and> i < int (length xs) then Inr (xs[nat i := v])
      else if i < 0 \<and> - i \<le> int (length xs) then Inr (xs[nat (int (length xs) + i) := v])
      else Inl IndexError)"

text \<open>Lines 375 and 376: the loop that fills \<open>headers\<close>.\<close>

fun fill_headers :: "pyval list \<Rightarrow> nat \<Rightarrow> labels_dict \<Rightarrow> error + pyval list" where
  "fill_headers headers dimen [] = Inr headers"
| "fill_headers headers dimen ((col_name, sls) # rest) =
     (if length sls \<le> dimen then Inl IndexError
      else (case start (sls ! dimen) of
              None \<Rightarrow> Inl TypeError
            | Some i \<Rightarrow>
                (case list_set headers i (PyStr col_name) of
                   Inl e \<Rightarrow> Inl e
                 | Inr headers' \<Rightarrow> fill_headers headers' dimen rest)))"

text \<open>The branch \<^verbatim>\<open>key == 'labels'\<close> of \<^verbatim>\<open>__write_attributes\<close>.\<close>

definition write_labels :: "h5state \<Rightarrow> string list \<Rightarrow> string \<Rightarrow> attr_value \<Rightarrow> unit result" where
  "write_labels st h5_dset key val =
     (case val of
        Labels labels \<Rightarrow>
          (case write_region_references st h5_dset labels of
             Inl e \<Rightarrow> Inl e
           | Inr (u, st1) \<Rightarrow>
               (case labels of
                  [] \<Rightarrow> Inl (IndexError, st1)
                | (first_name, first_sls) # others \<Rightarrow>
                    (case find_dim first_sls of
                       Some dimen \<Rightarrow>
                         (case fill_headers (replicate (length labels) PyNone) dimen labels of
                            Inl e \<Rightarrow> Inl (e, st1)
                          | Inr headers \<Rightarrow>
                              (case clean_string_att (Plain (PySeq headers)) of
                                 Inl e \<Rightarrow> Inl (e, st1)
                               | Inr v \<Rightarrow> Inr ((), h5_set_attr st1 h5_dset key v)))
                     | None \<Rightarrow>
                         Inr ((), st1\<lparr>warned := warned st1 @ [NoRegionLabels (last (split_on CHR ''/'' (path_name h5_dset)))]\<rparr>))))
      | _ \<Rightarrow> Inl (AttributeError, st))"

text \<open>\<^verbatim>\<open>HDFwriter.__write_attributes\<close>.\<close>

fun write_attributes :: "h5state \<Rightarrow> string list \<Rightarrow> attrs_dict \<Rightarrow> unit result" where
  "write_attributes st h5_dset [] = Inr ((), st)"
| "write_attributes st h5_dset ((key, val) # rest) =
     (if key = ''labels'' then
        (case write_labels st h5_dset key val of
           Inl e \<Rightarrow> Inl e
         | Inr (u, st1) \<Rightarrow> write_attributes st1 h5_dset rest)
      else
        (case clean_string_att val of
           Inl e \<Rightarrow> Inl (e, st)
         | Inr v \<Rightarrow> write_attributes (h5_set_attr st h5_dset key v) h5_dset rest))"

text \<open>
  The inner \<^verbatim>\<open>__create_dset\<close>: an exception of the build function closes the file.
\<close>

definition create_dset_guarded ::
  "h5state \<Rightarrow> error + (string list \<times> h5state) \<Rightarrow> string list result" where
  "create_dset_guarded st built =
     (case built of Inl e \<Rightarrow> Inl (e, flush_close st) | Inr r \<Rightarrow> Inr r)"

text \<open>\<^verbatim>\<open>HDFwriter._create_dataset\<close>.\<close>

definition create_dataset :: "h5state \<Rightarrow> string list \<Rightarrow> microdata \<Rightarrow> string list result" where
  "create_dataset st h5_group md =
     (case md of
        MicroDataGroup nm par ats ind chs \<Rightarrow> Inl (AssertionError, st)
      | MicroDataset microdset \<Rightarrow>
          if \<not> is_group st h5_group then Inl (AssertionError, st)
          else if name microdset \<in> set (h5_keys st h5_group) then Inl (ValueError, st)
          else
            (case (if \<not> resizable microdset then
                     (if maxshape microdset = None \<or> maxshape microdset = Some []
                      then create_dset_guarded st (create_simple_dset st h5_group microdset)
                      else create_dset_guarded st (create_empty_dset st h5_group microdset))
                   else create_dset_guarded st (create_resizeable_dset st h5_group microdset)) of
               Inl e \<Rightarrow> Inl e
             | Inr (h5_dset, st1) \<Rightarrow>
                 (case write_attributes st1 h5_dset (attrs microdset) of
                    Inl e \<Rightarrow> Inl e
                  | Inr (u, st2) \<Rightarrow> Inr (h5_dset, st2))))"

subsection \<open>Writing a tree\<close>

text \<open>
  The inner \<^verbatim>\<open>__populate\<close> of \<^verbatim>\<open>write\<close>, with the list \<open>ref_list\<close> it appends
  to, and the loop over the children of a group. The descriptor is returned as the
  function leaves it: with its parent set to the true path and, for a group, its
  completed name.
\<close>

fun populate ::
    "h5state \<Rightarrow> microdata \<Rightarrow> string \<Rightarrow> string list list \<Rightarrow> (string list list \<times> microdata) result"
  and populate_children ::
    "h5state \<Rightarrow> microdata list \<Rightarrow> string \<Rightarrow> string list list \<Rightarrow>
     (string list list \<times> microdata list) result"
  where
  "populate st (MicroDataGroup nm p ats ind chs) par ref_list =
     (case h5_get st par of
        Inl e \<Rightarrow> Inl (e, st)
      | Inr h5_parent_group \<Rightarrow>
          (case create_group st h5_parent_group (MicroDataGroup nm par ats ind chs) of
             Inl e \<Rightarrow> Inl e
           | Inr ((h5_obj, child), st1) \<Rightarrow>
               (case populate_children st1 chs (par @ ''/'' @ gname child) ref_list of
                  Inl e \<Rightarrow> Inl e
                | Inr ((refs, chs'), st2) \<Rightarrow>
                    Inr ((refs @ [h5_obj], MicroDataGroup (gname child) par ats ind chs'), st2))))"
| "populate st (MicroDataset d) par ref_list =
     (case h5_get st par of
        Inl e \<Rightarrow> Inl (e, st)
      | Inr h5_parent_group \<Rightarrow>
          (case create_dataset st h5_parent_group (MicroDataset (d\<lparr>parent := par\<rparr>)) of
             Inl e \<Rightarrow> Inl e
           | Inr (h5_obj, st1) \<Rightarrow>
               Inr ((ref_list @ [h5_obj], MicroDataset (d\<lparr>parent := par\<rparr>)), st1)))"
| "populate_children st [] par ref_list = Inr ((ref_list, []), st)"
| "populate_children st (ch # rest) par ref_list =
     (case populate st ch par ref_list of
        Inl e \<Rightarrow> Inl e
      | Inr ((refs, ch'), st1) \<Rightarrow>
          (case populate_children st1 rest par refs of
             Inl e \<Rightarrow> Inl e
           | Inr ((refs', rest'), st2) \<Rightarrow> Inr ((refs', ch' # rest'), st2)))"

text \<open>Lines 189 and 190: the attributes of the file itself; no value is skipped.\<close>

fun write_file_attrs :: "h5state \<Rightarrow> attrs_dict \<Rightarrow> unit result" where
  "write_file_attrs st [] = Inr ((), st)"
| "write_file_attrs st ((key, val) # rest) =
     (case clean_string_att val of
        Inl e \<Rightarrow> Inl (e, st)
      | Inr v \<Rightarrow> write_file_attrs (h5_set_attr st [] key v) rest)"

text \<open>What a caller can hand to \<^verbatim>\<open>write\<close>: a descriptor, or any other object.\<close>

datatype py_object = Node microdata | Other pyval

text \<open>
  \<^verbatim>\<open>HDFwriter.write\<close> (\<open>write\<close> is a word of Isar). \<open>version\<close> is the text of \<^verbatim>\<open>__version__.version\<close>. The
  result is \<open>ref_list\<close> and the descriptor as the call leaves it.
\<close>

definition write_data :: "string \<Rightarrow> h5state \<Rightarrow> py_object \<Rightarrow> (string list list \<times> microdata) result"
  where
  "write_data version st0 dat =
     (let st = h5_set_attr st0 [] ''Pycroscopy version'' (Plain (PyStr version))
      in case dat of
           Other v \<Rightarrow> Inl (TypeError, st)
         | Node (MicroDataset d) \<Rightarrow>
             (case h5_get st (parent d) of
                Inl e \<Rightarrow> Inl (if e = KeyError then ValueError else e, st)
              | Inr h5_parent \<Rightarrow>
                  (case create_dataset st h5_parent (MicroDataset d) of
                     Inl e \<Rightarrow> Inl e
                   | Inr (h5_dset, st1) \<Rightarrow> Inr (([h5_dset], MicroDataset d), st1)))
         | Node (MicroDataGroup nm par ats ind chs) \<Rightarrow>
             (case (if nm = [] \<and> par = ''/'' then
                      (case write_file_attrs st ats of
                         Inl e \<Rightarrow> Inl e
                       | Inr (u, st1) \<Rightarrow> Inr ((path_name [], nm), st1))
                    else
                      (case h5_get st par of
                         Inl e \<Rightarrow> Inl (e, st)
                       | Inr h5_parent \<Rightarrow>
                           (case create_group st h5_parent (MicroDataGroup nm par ats ind chs) of
                              Inl e \<Rightarrow> Inl e
                            | Inr ((h5_grp, g), st1) \<Rightarrow> Inr ((path_name h5_grp, gname g), st1)))) of
                Inl e \<Rightarrow> Inl e
              | Inr ((root, nm'), st1) \<Rightarrow>
                  (case populate_children st1 chs root [] of
                     Inl e \<Rightarrow> Inl e
                   | Inr ((ref_list, chs'), st2) \<Rightarrow>
                       Inr ((ref_list, MicroDataGroup nm' par ats ind chs'), st2))))"
section \<open>Sample files and descriptors\<close>

text \<open>
  A file just created (\<^verbatim>\<open>h5py.File(path, 'w')\<close>): the root group alone, and a
  store that refuses nothing.
\<close>

definition new_file :: h5state where
  "new_file = \<lparr> objs = [[] \<mapsto> H5Group []], h5attrs = (\<lambda>h. []), closed = False, warned = [],
                refuses = (\<lambda>rq. None) \<rparr>"

text \<open>The state a call leaves behind, whether it returns or raises.\<close>

definition state_of :: "'a result \<Rightarrow> h5state" where
  "state_of r = (case r of Inl (e, st) \<Rightarrow> st | Inr (x, st) \<Rightarrow> st)"

definition run_group :: microdata where
  "run_group = MicroDataGroup ''Run_'' ''/'' [] True []"

text \<open>The new file after \<open>run_group\<close> has been written once.\<close>

definition one_run :: h5state where
  "one_run = new_file\<lparr>objs := (objs new_file)
      ([] \<mapsto> H5Group [''Run_000''], [''Run_000''] \<mapsto> H5Group [])\<rparr>"

definition sample_dataset :: microdataset where
  "sample_dataset = \<lparr> name = ''Raw_Data'', parent = ''/'', attrs = [],
      data = Some \<lparr> shape = [2, 2], pdtype = ''int32'', elems = [1, 2, 3, 4] \<rparr>,
      dtype = Some ''int32'', compression = None, chunking = None, resizable = False,
      maxshape = None \<rparr>"

text \<open>A file with a group \<open>Measurement\<close> and a dataset \<open>Raw_Data\<close> under the root.\<close>

definition sample_file :: h5state where
  "sample_file = new_file\<lparr>objs := (objs new_file)
      ([] \<mapsto> H5Group [''Measurement'', ''Raw_Data''],
       [''Measurement''] \<mapsto> H5Group [],
       [''Raw_Data''] \<mapsto> H5Dataset \<lparr> ds_shape = [2, 2], ds_dtype = Some ''int32'',
          ds_maxshape = None, ds_chunks = None, ds_compression = None,
          ds_content = Written [1, 2, 3, 4] \<rparr>)\<rparr>"

definition sample_group :: microdata where
  "sample_group = MicroDataGroup_init ''host.example.org'' ''2017_06_01-12_00_00'' ''Measurement''
      None (Some [(''machine_id'', Plain (PyStr ''other''))]) None"

text \<open>
  A dataset with data and a \<open>maxshape\<close>, not resizable, and one that is resizable
  (the third example of the docstring of \<^verbatim>\<open>MicroDataset\<close>, smaller).
\<close>

definition prealloc_dataset :: microdataset where
  "prealloc_dataset = \<lparr> name = ''Raw_Data'', parent = ''/'',
      attrs = [(''units'', Plain (PyStr ''V''))],
      data = Some \<lparr> shape = [2, 2], pdtype = ''int32'', elems = [1, 2, 3, 4] \<rparr>,
      dtype = Some ''float16'', compression = Some ''gzip'', chunking = Some [Some 1, Some 8],
      resizable = False, maxshape = Some [Some 4, Some 8] \<rparr>"

definition expandable_dataset :: microdataset where
  "expandable_dataset = \<lparr> name = ''Raw_Data'', parent = ''/'', attrs = [],
      data = Some \<lparr> shape = [1, 4], pdtype = ''complex64'', elems = [0, 0, 0, 0] \<rparr>,
      dtype = Some ''complex64'', compression = Some ''gzip'', chunking = Some [Some 1, Some 4],
      resizable = True, maxshape = Some [None, Some 4] \<rparr>"

text \<open>An array of dtype \<open>S\<close>, of any number of dimensions.\<close>

fun is_arr :: "pyval \<Rightarrow> bool" where
  "is_arr (NdArrayS0 b) = True"
| "is_arr (NdArrayS xs) = True"
| "is_arr _ = False"

text \<open>A descriptor of the file itself, built with no attributes of the caller's.\<close>

definition sample_root :: microdata where
  "sample_root = MicroDataGroup_init ''host.example.org'' ''2017_06_01-12_00_00'' [] None None None"
section \<open>Notions used by the properties\<close>

text \<open>
  The path of the object a descriptor stands for, once \<^verbatim>\<open>write\<close> has set its
  parent to the true path (and completed its name).
\<close>

fun node_path :: "microdata \<Rightarrow> string list" where
  "node_path (MicroDataGroup n p a i cs) = split_path p @ [n]"
| "node_path (MicroDataset d) = split_path (parent d) @ [name d]"

text \<open>A tree of descriptors listed with every group after all its descendants.\<close>

fun postorder :: "microdata \<Rightarrow> microdata list" where
  "postorder (MicroDataGroup n p a i cs) = concat (map postorder cs) @ [MicroDataGroup n p a i cs]"
| "postorder (MicroDataset d) = [MicroDataset d]"

text \<open>
  \<open>resolves t t'\<close>: \<open>t'\<close> is \<open>t\<close> as a call of \<^verbatim>\<open>write\<close> leaves it. The
  parents may differ; the name of an indexed group has gained a suffix; everything else
  is the same, child by child.
\<close>

fun resolves :: "microdata \<Rightarrow> microdata \<Rightarrow> bool"
  and resolves_list :: "microdata list \<Rightarrow> microdata list \<Rightarrow> bool" where
  "resolves (MicroDataGroup n p a i cs) g' =
     (case g' of
        MicroDataGroup n' p' a' i' cs' \<Rightarrow>
          (if i then is_prefix n n' else n' = n) \<and> a' = a \<and> i' = i \<and> resolves_list cs cs'
      | MicroDataset d' \<Rightarrow> False)"
| "resolves (MicroDataset d) g' =
     (case g' of
        MicroDataGroup n' p' a' i' cs' \<Rightarrow> False
      | MicroDataset d' \<Rightarrow> d' = d\<lparr>parent := parent d'\<rparr>)"
| "resolves_list [] cs' = (cs' = [])"
| "resolves_list (c # cs) cs' =
     (case cs' of [] \<Rightarrow> False | c' # cs'' \<Rightarrow> resolves c c' \<and> resolves_list cs cs'')"

text \<open>
  The order the specification asks of the returned list (strict pre-order): no handle
  comes before the handle of one of its ancestors, that is, after a handle no proper
  prefix of its path follows.
\<close>

fun spec_preorder :: "string list list \<Rightarrow> bool" where
  "spec_preorder [] = True"
| "spec_preorder (h # rest) =
     (list_all (\<lambda>h'. \<not> (is_prefix h' h \<and> h' \<noteq> h)) rest \<and> spec_preorder rest)"

text \<open>A group \<open>Measurement\<close> with a group \<open>Channel\<close> that holds a dataset.\<close>

definition sample_tree :: microdata where
  "sample_tree = MicroDataGroup ''Measurement'' ''/'' [] False
     [MicroDataGroup ''Channel'' ''/Measurement'' [] False [MicroDataset sample_dataset]]"

text \<open>
  Every region of \<open>labels\<close> has, on axis \<open>dimen\<close>, a start that is an index into the
  list of headers, and no two regions have the same.
\<close>

definition valid_starts :: "nat \<Rightarrow> labels_dict \<Rightarrow> bool" where
  "valid_starts dimen labels =
     (list_all (\<lambda>(n, sls). case start (sls ! dimen) of
                               None \<Rightarrow> False
                             | Some i \<Rightarrow> 0 \<le> i \<and> i < int (length labels)) labels
      \<and> distinct (map (\<lambda>(n, sls). start (sls ! dimen)) labels))"

text \<open>
  The example of the specification, and labels whose first region has no start on any
  axis while the second has one on the first axis.
\<close>

definition ab_labels :: labels_dict where
  "ab_labels = [(''A'', [Slice (Some 0) (Some 1) None, Slice None None None]),
                (''B'', [Slice (Some 1) (Some 2) None, Slice None None None])]"

definition late_start_labels :: labels_dict where
  "late_start_labels = [(''A'', [Slice None None None, Slice None None None]),
                        (''B'', [Slice (Some 1) (Some 2) None, Slice None None None])]"

definition whole_labels :: labels_dict where
  "whole_labels = [(''All'', [Slice None None None, Slice None None None])]"
section \<open>Properties\<close>

subsection \<open>Auxiliary facts\<close>

lemma is_prefix_Nil [simp]: "is_prefix [] key"
  by (simp add: is_prefix_def)

lemma is_prefix_Cons [simp]:
  "is_prefix (a # sub) key = (case key of [] \<Rightarrow> False | b # rest \<Rightarrow> a = b \<and> is_prefix sub rest)"
  by (cases key) (auto simp: is_prefix_def)

lemma list_ex_zip_nth:
  "i < length xs \<Longrightarrow> i < length ys \<Longrightarrow> P (xs ! i, ys ! i) \<Longrightarrow> list_ex P (zip xs ys)"
  unfolding list_ex_iff by (metis in_set_zip fst_conv snd_conv)

lemma map_of_dict_set: "map_of (dict_set kvs k v) k' = (if k' = k then Some v else map_of kvs k')"
  by (induction kvs k v rule: dict_set.induct) auto

lemma keys_dict_set: "fst ` set (dict_set kvs k v) = insert k (fst ` set kvs)"
  by (induction kvs k v rule: dict_set.induct) auto

lemma distinct_dict_set: "distinct (map fst kvs) \<Longrightarrow> distinct (map fst (dict_set kvs k v))"
  by (induction kvs k v rule: dict_set.induct) (auto simp: keys_dict_set)

lemma gattrs_add_children: "gattrs (add_children (MicroDataGroup n p a i cs) chs) = a"
  by (simp add: add_children_def)

lemma format_03d_0: "format_03d 0 = ''000''"
  by code_simp

lemma objs_h5_set_attr [simp]: "objs (h5_set_attr st h k v) = objs st"
  by (simp add: h5_set_attr_def)

lemma closed_h5_set_attr [simp]: "closed (h5_set_attr st h k v) = closed st"
  by (simp add: h5_set_attr_def)

lemma h5attrs_h5_set_attr_other: "p \<noteq> h \<Longrightarrow> h5attrs (h5_set_attr st h k v) p = h5attrs st p"
  by (simp add: h5_set_attr_def)

lemma h5attrs_h5_set_attr_same:
  "map_of (h5attrs (h5_set_attr st h k v) h) k' =
     (if k' = k then Some v else map_of (h5attrs st h) k')"
  by (simp add: h5_set_attr_def map_of_dict_set)

lemma clean_string_att_text [simp]: "clean_string_att (Plain (PyStr s)) = Inr (Plain (PyStr s))"
  by (simp add: clean_string_att_def clean_pyval_def)

lemmas eval_defs = create_group_def new_file_def is_group_def h5_keys_def indexed_name_def
  attach_group_def h5_create_group_def valid_name_def add_member_def format_03d_0 state_of_def
  h5_set_attr_def

subsection \<open>The positions of the matching keys\<close>

lemma filter_indices:
  "map (nth ks) (filter (\<lambda>i. P (ks ! i)) [0 ..< length ks]) = filter P ks"
proof -
  have "filter P ks = filter P (map (nth ks) [0 ..< length ks])" by (simp add: map_nth)
  also have "\<dots> = map (nth ks) (filter (P \<circ> nth ks) [0 ..< length ks])" by (simp add: filter_map)
  finally show ?thesis by (simp add: comp_def)
qed

lemma previous_empty:
  "(filter (\<lambda>i. P (ks ! i)) [0 ..< length ks] = []) = (\<not> list_ex P ks)"
  using filter_indices[of ks P] by (metis filter_empty_conv list_ex_iff map_is_Nil_conv)

lemma indexed_name_none:
  "\<not> list_ex (contains nm) ks \<Longrightarrow> indexed_name ks nm = Inr (nm @ ''000'')"
  using previous_empty[of "contains nm" ks] by (simp add: indexed_name_def Let_def format_03d_0)

lemma indexed_name_some:
  "list_ex (contains nm) ks \<Longrightarrow> indexed_name ks nm = Inl TypeError"
  using previous_empty[of "contains nm" ks]
  by (simp add: indexed_name_def Let_def keys_getitem_def)

subsection \<open>Creating a group, step by step\<close>

lemma attach_group_handle:
  "attach_group st h nm = Inr (h', st') \<Longrightarrow> h' = h @ [nm]"
  by (auto simp: attach_group_def h5_create_group_def split: if_splits sum.splits error.splits)

lemma attach_group_existing:
  "nm \<in> set (h5_keys st h) \<Longrightarrow> attach_group st h nm = Inr (h @ [nm], st)"
  by (simp add: attach_group_def h5_create_group_def)

lemma create_group_Inr:
  assumes "create_group st h (MicroDataGroup nm par ats ind chs) = Inr ((h', g'), st')"
  shows "\<exists>nm'. (if ind then indexed_name (h5_keys st h) nm else Inr nm) = Inr nm'
           \<and> h' = h @ [nm'] \<and> g' = MicroDataGroup nm' par ats ind chs \<and> is_group st h
           \<and> (\<exists>st1. attach_group st h nm' = Inr (h', st1)
                 \<and> write_group_attrs st1 h' ats = Inr ((), st'))"
  using assms
  by (auto simp: create_group_def split: if_splits sum.splits dest: attach_group_handle)

lemma write_group_attrs_objs:
  "write_group_attrs st h ats = Inr (u, st') \<Longrightarrow> objs st' = objs st"
  by (induction st h ats rule: write_group_attrs.induct) (auto split: if_splits sum.splits)

lemma write_group_attrs_ok:
  "list_all (\<lambda>(k, v). v = Plain PyNone \<or> \<not> isl (clean_string_att v)) ats \<Longrightarrow>
   \<exists>st'. write_group_attrs st h ats = Inr ((), st') \<and> objs st' = objs st \<and> closed st' = closed st
       \<and> (\<forall>p. p \<noteq> h \<longrightarrow> h5attrs st' p = h5attrs st p)"
proof (induction st h ats rule: write_group_attrs.induct)
  case (1 st h)
  then show ?case by simp
next
  case (2 st h key val rest)
  show ?case
  proof (cases "val = Plain PyNone")
    case True
    with 2 show ?thesis by simp
  next
    case False
    with 2(3) obtain v where v: "clean_string_att val = Inr v"
      by (cases "clean_string_att val") auto
    from 2(2)[OF False v] 2(3) obtain st' where
      "write_group_attrs (h5_set_attr st h key v) h rest = Inr ((), st')"
      "objs st' = objs st" "closed st' = closed st"
      "\<forall>p. p \<noteq> h \<longrightarrow> h5attrs st' p = h5attrs (h5_set_attr st h key v) p"
      by auto
    then show ?thesis using False v by (simp add: h5attrs_h5_set_attr_other)
  qed
qed

lemma write_group_attrs_keeps:
  "write_group_attrs st h ats = Inr (u, st') \<Longrightarrow> k \<notin> fst ` set ats \<Longrightarrow>
   map_of (h5attrs st' h) k = map_of (h5attrs st h) k"
  by (induction st h ats rule: write_group_attrs.induct)
     (auto split: if_splits sum.splits simp: h5attrs_h5_set_attr_same)

lemma write_group_attrs_text:
  "write_group_attrs st h ats = Inr (u, st') \<Longrightarrow> distinct (map fst ats) \<Longrightarrow>
   (k, Plain (PyStr s)) \<in> set ats \<Longrightarrow> map_of (h5attrs st' h) k = Some (Plain (PyStr s))"
proof (induction st h ats rule: write_group_attrs.induct)
  case (1 st h)
  then show ?case by simp
next
  case (2 st h key val rest)
  show ?case
  proof (cases "(k, Plain (PyStr s)) \<in> set rest")
    case True
    with 2 show ?thesis by (auto split: if_splits sum.splits)
  next
    case False
    with 2(5) have kv: "key = k" "val = Plain (PyStr s)" by auto
    from 2(4) kv have notin: "k \<notin> fst ` set rest" by auto
    from 2(3) kv have w:
      "write_group_attrs (h5_set_attr st h k (Plain (PyStr s))) h rest = Inr (u, st')"
      by simp
    from write_group_attrs_keeps[OF w notin] show ?thesis
      by (simp add: h5attrs_h5_set_attr_same)
  qed
qed

subsection \<open>The sample files\<close>

lemma first_run:
  "create_group new_file [] run_group =
     Inr (([''Run_000''], MicroDataGroup ''Run_000'' ''/'' [] True []), one_run)"
  by (simp add: eval_defs run_group_def one_run_def)

lemma keys_one_run: "h5_keys one_run [] = [''Run_000'']"
  by (simp add: one_run_def h5_keys_def)

lemma second_run_raises: "create_group one_run [] run_group = Inl (TypeError, one_run)"
proof -
  have "indexed_name (h5_keys one_run []) ''Run_'' = Inl TypeError"
    by (rule indexed_name_some) (simp add: keys_one_run)
  moreover have "is_group one_run []"
    by (simp add: is_group_def one_run_def new_file_def)
  ultimately show ?thesis by (simp add: create_group_def run_group_def)
qed

lemma sample_file_root:
  "is_group sample_file []" "h5_keys sample_file [] = [''Measurement'', ''Raw_Data'']"
  by (simp_all add: sample_file_def new_file_def is_group_def h5_keys_def)

lemma sample_group_eq:
  "sample_group = MicroDataGroup ''Measurement'' ''/''
     [(''machine_id'', Plain (PyStr ''host.example.org'')),
      (''timestamp'', Plain (PyStr ''2017_06_01-12_00_00''))] False []"
  by (simp add: sample_group_def MicroDataGroup_init_def)

lemma sample_group_written:
  "\<exists>st'. create_group new_file [] sample_group = Inr (([''Measurement''], sample_group), st')"
  by (simp add: sample_group_eq eval_defs dict_set.simps)

lemma sample_root_written:
  "\<exists>r st'. write_data ''0.59.8'' new_file (Node sample_root) = Inr (r, st')"
  by (simp add: sample_root_def MicroDataGroup_init_def write_data_def)
subsection \<open>Creating a dataset, step by step\<close>

lemma dset_shape_h5_set_attr [simp]: "dset_shape (h5_set_attr st h k v) p = dset_shape st p"
  by (simp add: dset_shape_def)

lemma write_region_references_objs:
  "write_region_references st h L = Inr (u, st') \<Longrightarrow> objs st' = objs st"
  by (induction st h L rule: write_region_references.induct) (auto split: if_splits)

lemma write_labels_Inr:
  assumes "write_labels st h key val = Inr (u, st')"
  shows "\<exists>L st1. val = Labels L \<and> write_region_references st h L = Inr ((), st1)
           \<and> ((\<exists>v. st' = h5_set_attr st1 h key v) \<or> (\<exists>w. st' = st1\<lparr>warned := w\<rparr>))"
proof (cases val)
  case (Labels L)
  with assms obtain st1 where r: "write_region_references st h L = Inr ((), st1)"
    by (auto simp: write_labels_def split: sum.splits)
  with assms Labels have "(\<exists>v. st' = h5_set_attr st1 h key v) \<or> (\<exists>w. st' = st1\<lparr>warned := w\<rparr>)"
    by (auto simp: write_labels_def simp del: fill_headers.simps
        split: list.splits option.splits sum.splits)
  with r Labels show ?thesis by blast
qed (use assms in \<open>auto simp: write_labels_def\<close>)

lemma write_labels_objs:
  "write_labels st h key val = Inr (u, st') \<Longrightarrow> objs st' = objs st"
  by (auto dest!: write_labels_Inr dest: write_region_references_objs)

lemma write_attributes_objs:
  "write_attributes st h ats = Inr (u, st') \<Longrightarrow> objs st' = objs st"
proof (induction st h ats arbitrary: u st' rule: write_attributes.induct)
  case (1 st h5_dset)
  then show ?case by simp
next
  case (2 st h5_dset key val rest)
  show ?case
  proof (cases "key = ''labels''")
    case True
    with 2(3) obtain st1 where l: "write_labels st h5_dset key val = Inr ((), st1)"
      and r: "write_attributes st1 h5_dset rest = Inr (u, st')"
      by (auto split: sum.splits)
    from 2(1)[OF True _ _ r, of "((), st1)" "()"] l write_labels_objs[OF l] show ?thesis by simp
  next
    case False
    with 2(3) obtain v where v: "clean_string_att val = Inr v"
      and r: "write_attributes (h5_set_attr st h5_dset key v) h5_dset rest = Inr (u, st')"
      by (auto split: sum.splits)
    from 2(2)[OF False v r] show ?thesis by simp
  qed
qed

lemma objs_add_member_new: "objs (add_member st h nm obj) (h @ [nm]) = Some obj"
  by (simp add: add_member_def)

lemma h5_create_dataset_Inr:
  assumes "h5_create_dataset st h rq = Inr (h', st1)"
  shows "h' = h @ [rq_name rq] \<and>
    (\<exists>sh c. objs st1 h' = Some (H5Dataset \<lparr> ds_shape = sh, ds_dtype = rq_dtype rq,
                 ds_maxshape = rq_maxshape rq, ds_chunks = rq_chunks rq,
                 ds_compression = rq_compression rq, ds_content = c \<rparr>)
       \<and> (case rq_data rq of
             Some d \<Rightarrow> sh = shape d \<and> c = Written (elems d)
           | None \<Rightarrow> c = Fill \<and> (\<exists>ds. rq_shape rq = Some ds \<and> all_dims ds = Some sh)))"
  using assms
  by (auto simp: h5_create_dataset_def objs_add_member_new split: if_splits option.splits)

lemma create_dataset_Inr:
  assumes "create_dataset st h (MicroDataset d) = Inr (h', st')"
  shows "\<exists>st1. create_dset_guarded st
           (if \<not> resizable d then
              (if maxshape d = None \<or> maxshape d = Some [] then create_simple_dset st h d
               else create_empty_dset st h d)
            else create_resizeable_dset st h d) = Inr (h', st1)
          \<and> write_attributes st1 h' (attrs d) = Inr ((), st')"
  using assms by (auto simp: create_dataset_def split: if_splits sum.splits)

lemma create_dset_guarded_Inr: "create_dset_guarded st b = Inr r \<Longrightarrow> b = Inr r"
  by (auto simp: create_dset_guarded_def split: sum.splits)

lemma all_dims_4_8: "all_dims [Some 4, Some 8] = Some [4, 8]"
  by (simp add: all_dims_def)

lemma prealloc_written:
  "\<exists>st'. create_dataset new_file [] (MicroDataset prealloc_dataset) = Inr ([''Raw_Data''], st')"
  by (simp add: create_dataset_def prealloc_dataset_def new_file_def is_group_def h5_keys_def
      create_dset_guarded_def create_empty_dset_def h5_create_dataset_def valid_name_def
      all_dims_4_8 add_member_def)

lemma expandable_written:
  "\<exists>st'. create_dataset new_file [] (MicroDataset expandable_dataset) = Inr ([''Raw_Data''], st')"
  by (simp add: create_dataset_def expandable_dataset_def new_file_def is_group_def h5_keys_def
      create_dset_guarded_def create_resizeable_dset_def h5_create_dataset_def valid_name_def
      add_member_def)
subsection \<open>The handles a tree gives\<close>

lemma is_prefix_append: "is_prefix xs (xs @ ys)"
  by (simp add: is_prefix_def)

lemma h5_get_Inr: "h5_get st p = Inr h \<Longrightarrow> h = split_path p"
  by (auto simp: h5_get_def split: if_splits option.splits)

lemma create_dataset_handle:
  assumes "create_dataset st h (MicroDataset d) = Inr (h', st')"
  shows "h' = h @ [name d]"
proof -
  from create_dataset_Inr[OF assms] obtain st1 where
    "create_dset_guarded st
           (if \<not> resizable d then
              (if maxshape d = None \<or> maxshape d = Some [] then create_simple_dset st h d
               else create_empty_dset st h d)
            else create_resizeable_dset st h d) = Inr (h', st1)" by blast
  from create_dset_guarded_Inr[OF this] show ?thesis
    by (auto simp: create_simple_dset_def create_empty_dset_def create_resizeable_dset_def Let_def
        split: if_splits option.splits dest!: h5_create_dataset_Inr)
qed

lemma indexed_name_prefix: "indexed_name ks nm = Inr nm' \<Longrightarrow> is_prefix nm nm'"
  by (auto simp: indexed_name_def Let_def keys_getitem_def is_prefix_append split: if_splits)

lemma populate_postorder:
  "(populate st child par refs = Inr ((refs', child'), st')
      \<longrightarrow> refs' = refs @ map node_path (postorder child') \<and> resolves child child')"
  "(populate_children st chs par refs = Inr ((refs'', chs'), st'')
      \<longrightarrow> refs'' = refs @ concat (map (\<lambda>c. map node_path (postorder c)) chs') \<and> resolves_list chs chs')"
proof (induction st child par refs and st chs par refs
    arbitrary: refs' child' st' and refs'' chs' st''
    rule: populate_populate_children.induct)
  case (1 st nm p ats ind chs par ref_list)
  show ?case
  proof
    assume a: "populate st (MicroDataGroup nm p ats ind chs) par ref_list = Inr ((refs', child'), st')"
    then obtain h where h: "h5_get st par = Inr h" by (auto split: sum.splits)
    with a obtain h5_obj child st1 where
      g: "create_group st h (MicroDataGroup nm par ats ind chs) = Inr ((h5_obj, child), st1)"
      by (auto split: sum.splits)
    with a h obtain refs1 chs1 where
      c: "populate_children st1 chs (par @ ''/'' @ gname child) ref_list = Inr ((refs1, chs1), st')"
      and r: "refs' = refs1 @ [h5_obj]" "child' = MicroDataGroup (gname child) par ats ind chs1"
      by (auto split: sum.splits)
    from create_group_Inr[OF g] obtain nm' where
      nm': "(if ind then indexed_name (h5_keys st h) nm else Inr nm) = Inr nm'"
        "h5_obj = h @ [nm']" "child = MicroDataGroup nm' par ats ind chs" by blast
    from "1.IH"[OF h g refl refl, of refs1 chs1 st'] c
    have ih: "refs1 = ref_list @ concat (map (\<lambda>c. map node_path (postorder c)) chs1)"
      "resolves_list chs chs1" by simp_all
    have pre: "if ind then is_prefix nm nm' else nm' = nm"
      using nm'(1) by (auto split: if_splits dest: indexed_name_prefix)
    show "refs' = ref_list @ map node_path (postorder child') \<and>
          resolves (MicroDataGroup nm p ats ind chs) child'"
      using r ih nm' pre h5_get_Inr[OF h] by (simp add: map_concat comp_def)
  qed
next
  case (2 st d par ref_list)
  show ?case
  proof
    assume a: "populate st (MicroDataset d) par ref_list = Inr ((refs', child'), st')"
    then obtain h where h: "h5_get st par = Inr h" by (auto split: sum.splits)
    with a obtain h5_obj where
      g: "create_dataset st h (MicroDataset (d\<lparr>parent := par\<rparr>)) = Inr (h5_obj, st')"
      and r: "refs' = ref_list @ [h5_obj]" "child' = MicroDataset (d\<lparr>parent := par\<rparr>)"
      by (auto split: sum.splits)
    from create_dataset_handle[OF g] have "h5_obj = h @ [name d]" by simp
    then show "refs' = ref_list @ map node_path (postorder child') \<and> resolves (MicroDataset d) child'"
      using r h5_get_Inr[OF h] by simp
  qed
next
  case (3 st par ref_list)
  then show ?case by auto
next
  case (4 st ch rest par ref_list)
  show ?case
  proof
    assume a: "populate_children st (ch # rest) par ref_list = Inr ((refs'', chs'), st'')"
    then obtain refs ch' st1 where p: "populate st ch par ref_list = Inr ((refs, ch'), st1)"
      by (auto split: sum.splits)
    with a obtain rest' where
      c: "populate_children st1 rest par refs = Inr ((refs'', rest'), st'')"
      and r: "chs' = ch' # rest'"
      by (auto split: sum.splits)
    from "4.IH"(1)[of refs ch' st1] p
    have 1: "refs = ref_list @ map node_path (postorder ch')" "resolves ch ch'" by simp_all
    from "4.IH"(2)[OF p refl refl, of refs'' rest' st''] c
    have 2: "refs'' = refs @ concat (map (\<lambda>c. map node_path (postorder c)) rest')"
      "resolves_list rest rest'" by simp_all
    from 1 2 r show "refs'' = ref_list @ concat (map (\<lambda>c. map node_path (postorder c)) chs') \<and>
         resolves_list (ch # rest) chs'" by simp
  qed
qed

lemma sample_tree_written:
  "\<exists>g st'. write_data ''0.59.8'' new_file (Node sample_tree)
     = Inr (([[''Measurement'', ''Channel'', ''Raw_Data''], [''Measurement'', ''Channel'']], g), st')"
  by (simp add: sample_tree_def sample_dataset_def write_data_def h5_get_def split_path_def
      path_name_def create_group_def create_dataset_def is_group_def h5_keys_def attach_group_def
      h5_create_group_def valid_name_def add_member_def h5_set_attr_def create_dset_guarded_def
      create_simple_dset_def h5_create_dataset_def new_file_def)
subsection \<open>Region references and headers\<close>

lemma find_dim_None: "(find_dim sls = None) = list_all (\<lambda>sl. start sl = None) sls"
  by (induction sls) (auto split: option.splits)

lemma find_dim_Some:
  "(find_dim sls = Some k) =
     (k < length sls \<and> start (sls ! k) \<noteq> None \<and> (\<forall>j < k. start (sls ! j) = None))"
proof (induction sls arbitrary: k)
  case Nil
  then show ?case by simp
next
  case (Cons sl sls)
  show ?case
  proof (cases "start sl = None")
    case False
    then show ?thesis by (cases k) auto
  next
    case True
    show ?thesis
    proof (cases k)
      case 0
      with True show ?thesis by (auto split: option.splits)
    next
      case (Suc k')
      have "(\<forall>j < Suc k'. start ((sl # sls) ! j) = None) = (\<forall>j < k'. start (sls ! j) = None)"
        using True by (auto simp: less_Suc_eq_0_disj)
      with True Suc Cons.IH[of k'] show ?thesis by (auto split: option.splits)
    qed
  qed
qed

lemma list_set_valid:
  "0 \<le> i \<Longrightarrow> i < int (length xs) \<Longrightarrow> list_set xs i v = Inr (xs[nat i := v])"
  by (simp add: list_set_def)

lemma fill_headers_ok:
  assumes "list_all (\<lambda>(n, sls). dimen < length sls \<and>
              (case start (sls ! dimen) of None \<Rightarrow> False
               | Some i \<Rightarrow> 0 \<le> i \<and> i < int m)) L"
    and "distinct (map (\<lambda>(n, sls). start (sls ! dimen)) L)"
    and "length hs = m"
  shows "\<exists>hs'. fill_headers hs dimen L = Inr hs' \<and> length hs' = m
           \<and> (\<forall>(n, sls) \<in> set L. \<exists>i. start (sls ! dimen) = Some i \<and> hs' ! nat i = PyStr n)
           \<and> (\<forall>j < m. Some (int j) \<notin> (\<lambda>(n, sls). start (sls ! dimen)) ` set L
                 \<longrightarrow> hs' ! j = hs ! j)"
  using assms
proof (induction L arbitrary: hs)
  case Nil
  then show ?case by simp
next
  case (Cons e rest)
  obtain n sls where e: "e = (n, sls)" by (cases e)
  from Cons.prems(1) e obtain i where i: "dimen < length sls" "start (sls ! dimen) = Some i"
    "0 \<le> i" "i < int m"
    by (auto split: option.splits)
  let ?hs1 = "hs[nat i := PyStr n]"
  have p1: "list_all (\<lambda>(n, sls). dimen < length sls \<and>
              (case start (sls ! dimen) of None \<Rightarrow> False
               | Some i \<Rightarrow> 0 \<le> i \<and> i < int m)) rest"
    using Cons.prems(1) by simp
  have p2: "distinct (map (\<lambda>(n, sls). start (sls ! dimen)) rest)"
    using Cons.prems(2) by simp
  have p3: "length ?hs1 = m" using Cons.prems(3) by simp
  from Cons.IH[OF p1 p2 p3] obtain hs' where
    f: "fill_headers ?hs1 dimen rest = Inr hs'" and l: "length hs' = m"
    and r: "\<forall>(n, sls) \<in> set rest. \<exists>i. start (sls ! dimen) = Some i \<and> hs' ! nat i = PyStr n"
    and u: "\<forall>j < m. Some (int j) \<notin> (\<lambda>(n, sls). start (sls ! dimen)) ` set rest
                 \<longrightarrow> hs' ! j = ?hs1 ! j"
    by auto
  have notin: "Some i \<notin> (\<lambda>(n, sls). start (sls ! dimen)) ` set rest"
    using Cons.prems(2) e i(2) by auto
  have ni: "nat i < m" "int (nat i) = i" using i by auto
  have head: "hs' ! nat i = PyStr n"
    using u ni notin Cons.prems(3) by simp
  have fh: "fill_headers hs dimen (e # rest) = Inr hs'"
    using e i f Cons.prems(3) by (simp add: list_set_valid)
  have unt: "hs' ! j = hs ! j"
    if "j < m" "Some (int j) \<notin> (\<lambda>(n, sls). start (sls ! dimen)) ` set (e # rest)" for j
  proof -
    from that(2) e i(2) have "int j \<noteq> i" by auto
    then have "j \<noteq> nat i" using i(3) by auto
    with u that show ?thesis by auto
  qed
  show ?case
    using fh l r head unt e i(2) by auto
qed

lemma h5attrs_warned_update [simp]: "h5attrs (st\<lparr>warned := w\<rparr>) = h5attrs st"
  by simp

lemma write_region_references_keeps:
  "write_region_references st h L = Inr (u, st') \<Longrightarrow> k \<notin> fst ` set L \<Longrightarrow>
   map_of (h5attrs st' h) k = map_of (h5attrs st h) k"
  by (induction st h L rule: write_region_references.induct)
     (auto split: if_splits simp: h5attrs_h5_set_attr_same)

lemma write_region_references_ok:
  assumes "list_all (\<lambda>(n, sls). length sls = length (dset_shape st h)) L"
    and "distinct (map fst L)"
  shows "\<exists>st1. write_region_references st h L = Inr ((), st1)
           \<and> (\<forall>(n, sls) \<in> set L. map_of (h5attrs st1 h) n = Some (RegionRef h sls))
           \<and> objs st1 = objs st \<and> warned st1 = warned st \<and> closed st1 = closed st"
  using assms
proof (induction L arbitrary: st)
  case Nil
  then show ?case by simp
next
  case (Cons e rest)
  obtain n sls where e: "e = (n, sls)" by (cases e)
  let ?st0 = "h5_set_attr st h n (RegionRef h sls)"
  from Cons.prems e have len: "length sls = length (dset_shape st h)" by simp
  have p1: "list_all (\<lambda>(n, sls). length sls = length (dset_shape ?st0 h)) rest"
    using Cons.prems(1) by simp
  have p2: "distinct (map fst rest)" using Cons.prems(2) by simp
  from Cons.IH[OF p1 p2] obtain st1 where
    w: "write_region_references ?st0 h rest = Inr ((), st1)"
    and a: "\<forall>(n, sls) \<in> set rest. map_of (h5attrs st1 h) n = Some (RegionRef h sls)"
    and o: "objs st1 = objs st" "warned st1 = warned st" "closed st1 = closed st"
    by (auto simp: h5_set_attr_def)
  have "n \<notin> fst ` set rest" using Cons.prems(2) e by auto
  from write_region_references_keeps[OF w this]
  have "map_of (h5attrs st1 h) n = Some (RegionRef h sls)"
    by (simp add: h5attrs_h5_set_attr_same)
  with w a o e len show ?case by auto
qed

lemma dset_shape_sample: "dset_shape sample_file [''Raw_Data''] = [2, 2]"
  by (simp add: dset_shape_def sample_file_def)

lemma encode_ascii_A_B: "encode_ascii ''A'' = Inr ''A''" "encode_ascii ''B'' = Inr ''B''"
  by code_simp+

lemma clean_headers_A_B:
  "clean_string_att (Plain (PySeq [PyStr ''A'', PyStr ''B'']))
     = Inr (Plain (NdArrayS [NpBytes ''A'', NpBytes ''B'']))"
  by (simp add: clean_string_att_def clean_pyval_def encode_ascii_A_B)
subsection \<open>What a call leaves alone\<close>

lemma h5attrs_add_member [simp]: "h5attrs (add_member st h nm obj) = h5attrs st"
  by (simp add: add_member_def)

lemma attach_group_h5attrs: "attach_group st h nm = Inr (h', st') \<Longrightarrow> h5attrs st' = h5attrs st"
  by (auto simp: attach_group_def h5_create_group_def split: if_splits sum.splits error.splits)

lemma write_group_attrs_frame:
  "write_group_attrs st h ats = Inr (u, st') \<Longrightarrow> p \<noteq> h \<Longrightarrow> h5attrs st' p = h5attrs st p"
  by (induction st h ats rule: write_group_attrs.induct)
     (auto split: if_splits sum.splits simp: h5attrs_h5_set_attr_other)

lemma create_group_frame:
  assumes "create_group st h g = Inr ((h', g'), st')" and "p \<noteq> h'"
  shows "h5attrs st' p = h5attrs st p"
proof (cases g)
  case (MicroDataGroup nm par ats ind chs)
  with assms(1) create_group_Inr[of st h nm par ats ind chs h' g' st'] obtain nm' st1 where
    a: "attach_group st h nm' = Inr (h', st1)" and w: "write_group_attrs st1 h' ats = Inr ((), st')"
    by auto
  from write_group_attrs_frame[OF w assms(2)] attach_group_h5attrs[OF a] show ?thesis by simp
next
  case (MicroDataset d)
  with assms(1) show ?thesis by (simp add: create_group_def)
qed

lemma write_region_references_frame:
  "write_region_references st h L = Inr (u, st') \<Longrightarrow> p \<noteq> h \<Longrightarrow> h5attrs st' p = h5attrs st p"
  by (induction st h L rule: write_region_references.induct)
     (auto split: if_splits simp: h5attrs_h5_set_attr_other)

lemma write_labels_frame:
  assumes "write_labels st h key val = Inr (u, st')" and "p \<noteq> h"
  shows "h5attrs st' p = h5attrs st p"
proof -
  from write_labels_Inr[OF assms(1)] obtain L st1 where
    r: "write_region_references st h L = Inr ((), st1)"
    and s: "(\<exists>v. st' = h5_set_attr st1 h key v) \<or> (\<exists>w. st' = st1\<lparr>warned := w\<rparr>)"
    by blast
  from s have "h5attrs st' p = h5attrs st1 p"
    using assms(2) by (auto simp: h5attrs_h5_set_attr_other)
  with write_region_references_frame[OF r assms(2)] show ?thesis by simp
qed

lemma write_attributes_frame:
  "write_attributes st h ats = Inr (u, st') \<Longrightarrow> p \<noteq> h \<Longrightarrow> h5attrs st' p = h5attrs st p"
proof (induction st h ats arbitrary: u st' rule: write_attributes.induct)
  case (1 st h5_dset)
  then show ?case by simp
next
  case (2 st h5_dset key val rest)
  show ?case
  proof (cases "key = ''labels''")
    case True
    with 2(3) obtain st1 where l: "write_labels st h5_dset key val = Inr ((), st1)"
      and r: "write_attributes st1 h5_dset rest = Inr (u, st')"
      by (auto split: sum.splits)
    from 2(1)[OF True _ _ r 2(4), of "((), st1)" "()"] l write_labels_frame[OF l 2(4)]
    show ?thesis by simp
  next
    case False
    with 2(3) obtain v where v: "clean_string_att val = Inr v"
      and r: "write_attributes (h5_set_attr st h5_dset key v) h5_dset rest = Inr (u, st')"
      by (auto split: sum.splits)
    from 2(2)[OF False v r 2(4)] 2(4) show ?thesis by (simp add: h5attrs_h5_set_attr_other)
  qed
qed

lemma h5_create_dataset_h5attrs:
  "h5_create_dataset st h rq = Inr (h', st1) \<Longrightarrow> h5attrs st1 = h5attrs st"
  by (auto simp: h5_create_dataset_def split: if_splits option.splits)

lemma create_dataset_frame:
  assumes "create_dataset st h (MicroDataset d) = Inr (h', st')" and "p \<noteq> h'"
  shows "h5attrs st' p = h5attrs st p"
proof -
  from create_dataset_Inr[OF assms(1)] obtain st1 where
    b: "create_dset_guarded st
           (if \<not> resizable d then
              (if maxshape d = None \<or> maxshape d = Some [] then create_simple_dset st h d
               else create_empty_dset st h d)
            else create_resizeable_dset st h d) = Inr (h', st1)"
    and w: "write_attributes st1 h' (attrs d) = Inr ((), st')" by blast
  from create_dset_guarded_Inr[OF b] have "h5attrs st1 = h5attrs st"
    by (auto simp: create_simple_dset_def create_empty_dset_def create_resizeable_dset_def Let_def
        split: if_splits option.splits dest!: h5_create_dataset_h5attrs)
  with write_attributes_frame[OF w assms(2)] show ?thesis by simp
qed

lemma populate_root_attrs:
  "(populate st child par refs = Inr ((refs', child'), st') \<longrightarrow> h5attrs st' [] = h5attrs st [])"
  "(populate_children st chs par refs = Inr ((refs'', chs'), st'')
      \<longrightarrow> h5attrs st'' [] = h5attrs st [])"
proof (induction st child par refs and st chs par refs
    arbitrary: refs' child' st' and refs'' chs' st''
    rule: populate_populate_children.induct)
  case (1 st nm p ats ind chs par ref_list)
  show ?case
  proof
    assume a: "populate st (MicroDataGroup nm p ats ind chs) par ref_list = Inr ((refs', child'), st')"
    then obtain h where h: "h5_get st par = Inr h" by (auto split: sum.splits)
    with a obtain h5_obj child st1 where
      g: "create_group st h (MicroDataGroup nm par ats ind chs) = Inr ((h5_obj, child), st1)"
      by (auto split: sum.splits)
    with a h obtain refs1 chs1 where
      c: "populate_children st1 chs (par @ ''/'' @ gname child) ref_list = Inr ((refs1, chs1), st')"
      by (auto split: sum.splits)
    from create_group_Inr[OF g] have "h5_obj \<noteq> []" by auto
    from create_group_frame[OF g this[symmetric]] have "h5attrs st1 [] = h5attrs st []" .
    with "1.IH"[OF h g refl refl, of refs1 chs1 st'] c
    show "h5attrs st' [] = h5attrs st []" by simp
  qed
next
  case (2 st d par ref_list)
  show ?case
  proof
    assume a: "populate st (MicroDataset d) par ref_list = Inr ((refs', child'), st')"
    then obtain h where h: "h5_get st par = Inr h" by (auto split: sum.splits)
    with a obtain h5_obj where
      g: "create_dataset st h (MicroDataset (d\<lparr>parent := par\<rparr>)) = Inr (h5_obj, st')"
      by (auto split: sum.splits)
    from create_dataset_handle[OF g] have "h5_obj \<noteq> []" by simp
    from create_dataset_frame[OF g this[symmetric]] show "h5attrs st' [] = h5attrs st []" .
  qed
next
  case (3 st par ref_list)
  then show ?case by auto
next
  case (4 st ch rest par ref_list)
  show ?case
  proof
    assume a: "populate_children st (ch # rest) par ref_list = Inr ((refs'', chs'), st'')"
    then obtain refs ch' st1 where p: "populate st ch par ref_list = Inr ((refs, ch'), st1)"
      by (auto split: sum.splits)
    with a obtain rest' where
      c: "populate_children st1 rest par refs = Inr ((refs'', rest'), st'')"
      by (auto split: sum.splits)
    from "4.IH"(1)[of refs ch' st1] p have 1: "h5attrs st1 [] = h5attrs st []" by simp
    from "4.IH"(2)[OF p refl refl, of refs'' rest' st''] c 1
    show "h5attrs st'' [] = h5attrs st []" by simp
  qed
qed

lemma write_file_attrs_keeps:
  "write_file_attrs st ats = Inr (u, st') \<Longrightarrow> k \<notin> fst ` set ats \<Longrightarrow>
   map_of (h5attrs st' []) k = map_of (h5attrs st []) k"
  by (induction st ats rule: write_file_attrs.induct)
     (auto split: sum.splits simp: h5attrs_h5_set_attr_same)

lemma write_file_attrs_text:
  "write_file_attrs st ats = Inr (u, st') \<Longrightarrow> distinct (map fst ats) \<Longrightarrow>
   (k, Plain (PyStr s)) \<in> set ats \<Longrightarrow> map_of (h5attrs st' []) k = Some (Plain (PyStr s))"
proof (induction st ats rule: write_file_attrs.induct)
  case (1 st)
  then show ?case by simp
next
  case (2 st key val rest)
  show ?case
  proof (cases "(k, Plain (PyStr s)) \<in> set rest")
    case True
    with 2 show ?thesis by (auto split: sum.splits)
  next
    case False
    with 2(4) have kv: "key = k" "val = Plain (PyStr s)" by auto
    from 2(3) kv have notin: "k \<notin> fst ` set rest" by auto
    from 2(2) kv have w:
      "write_file_attrs (h5_set_attr st [] k (Plain (PyStr s))) rest = Inr (u, st')"
      by simp
    from write_file_attrs_keeps[OF w notin] show ?thesis
      by (simp add: h5attrs_h5_set_attr_same)
  qed
qed

lemma write_data_root_attrs:
  assumes "write_data version st (Node (MicroDataGroup [] ''/'' ats ind chs)) = Inr (r, st')"
    and "distinct (map fst ats)" and "(k, Plain (PyStr s)) \<in> set ats"
  shows "map_of (h5attrs st' []) k = Some (Plain (PyStr s))"
proof -
  let ?st0 = "h5_set_attr st [] ''Pycroscopy version'' (Plain (PyStr version))"
  from assms(1) obtain st1 refs chs' where
    w: "write_file_attrs ?st0 ats = Inr ((), st1)"
    and c: "populate_children st1 chs (path_name []) [] = Inr ((refs, chs'), st')"
    by (auto simp: write_data_def Let_def split: sum.splits)
  from populate_root_attrs(2)[of st1 chs "path_name []" "[]" refs chs' st'] c
  have "h5attrs st' [] = h5attrs st1 []" by simp
  with write_file_attrs_text[OF w assms(2,3)] show ?thesis by simp
qed
subsection \<open>Construction of a dataset descriptor\<close>

text \<open>
  Claim C8. \<^verbatim>\<open>MicroDataset.__init__\<close> raises whenever the chunking has another
  number of dimensions than the shape that bounds it (\<open>maxshape\<close> if given, else the
  shape of the data), or a chunk dimension exceeds the bound of its axis, or the
  compression is none of \<open>None\<close>, \<open>gzip\<close>, \<open>lzf\<close>. The constructor takes no store:
  nothing is written before it raises.
\<close>

theorem invalid_chunking_or_compression_raises:
  assumes "(\<exists>cs ds. make_iterable chunk_arg = Some cs
              \<and> data_shape dat (make_iterable maxshape_arg) = Inr ds
              \<and> (length cs \<noteq> length ds
                  \<or> (\<exists>i c m. i < length cs \<and> i < length ds
                        \<and> cs ! i = Some c \<and> ds ! i = Some m \<and> m < c)))
           \<or> compr \<notin> set valid_compressions"
  shows "\<exists>e. MicroDataset_init nm dat dt compr chunk_arg par resiz maxshape_arg ats = Inl e"
proof -
  from assms consider
    (compr) "compr \<notin> set valid_compressions"
  | (chunk) cs ds where "make_iterable chunk_arg = Some cs"
      "data_shape dat (make_iterable maxshape_arg) = Inr ds"
      "length cs \<noteq> length ds
         \<or> (\<exists>i c m. i < length cs \<and> i < length ds \<and> cs ! i = Some c \<and> ds ! i = Some m \<and> m < c)"
    by blast
  then show ?thesis
  proof cases
    case compr
    then show ?thesis by (simp add: MicroDataset_init_def Let_def)
  next
    case chunk
    have "check_chunking dat (make_iterable maxshape_arg) (Some cs) \<noteq> None"
    proof (cases "length cs \<noteq> length ds")
      case True
      then show ?thesis using chunk(2) by (simp add: check_chunking_def)
    next
      case False
      with chunk(3) obtain i c m where i: "i < length cs" "i < length ds" "cs ! i = Some c"
        "ds ! i = Some m" "m < c" by blast
      have "list_ex (\<lambda>(ch, mx). case mx of None \<Rightarrow> False
                 | Some m \<Rightarrow> (case ch of None \<Rightarrow> False | Some c \<Rightarrow> c > m)) (zip cs ds)"
        by (rule list_ex_zip_nth[OF i(1) i(2)]) (simp add: i)
      then show ?thesis using chunk(2) by (simp add: check_chunking_def)
    qed
    then obtain e where
      "check_chunking dat (make_iterable maxshape_arg) (make_iterable chunk_arg) = Some e"
      using chunk(1) by auto
    then show ?thesis
      by (simp add: MicroDataset_init_def Let_def split: option.splits)
  qed
qed

theorem invalid_chunking_or_compression_raises_witness:
  "(\<exists>e. MicroDataset_init ''Raw_Data'' None (Some ''float16'') (Some ''gzip'')
      (Some (Many [Some 8, Some 4])) None False (Some (Many [Some 4, Some 4])) None = Inl e)
   \<and> (\<exists>e. MicroDataset_init ''Raw_Data'' None (Some ''float16'') (Some ''zip'')
      None None False (Some (Many [Some 4, Some 4])) None = Inl e)"
proof
  show "\<exists>e. MicroDataset_init ''Raw_Data'' None (Some ''float16'') (Some ''gzip'')
      (Some (Many [Some 8, Some 4])) None False (Some (Many [Some 4, Some 4])) None = Inl e"
  proof (rule invalid_chunking_or_compression_raises, rule disjI1, intro exI conjI)
    show "make_iterable (Some (Many [Some 8, Some 4])) = Some [Some 8, Some 4]"
      by (simp add: make_iterable_def)
    show "data_shape None (make_iterable (Some (Many [Some 4, Some 4]))) = Inr [Some 4, Some 4]"
      by (simp add: make_iterable_def data_shape_def)
    show "length [Some (8::int), Some 4] \<noteq> length [Some (4::int), Some 4]
       \<or> (\<exists>i c m. i < length [Some (8::int), Some 4] \<and> i < length [Some (4::int), Some 4]
             \<and> [Some (8::int), Some 4] ! i = Some c \<and> [Some (4::int), Some 4] ! i = Some m \<and> m < c)"
      by (rule disjI2, rule exI[of _ 0]) simp
  qed
  show "\<exists>e. MicroDataset_init ''Raw_Data'' None (Some ''float16'') (Some ''zip'')
      None None False (Some (Many [Some 4, Some 4])) None = Inl e"
    by (rule invalid_chunking_or_compression_raises, rule disjI2) (simp add: valid_compressions_def)
qed
subsection \<open>The name of an indexed group\<close>

text \<open>
  The name lines 254 to 261 give an indexed group: the base name followed by \<open>000\<close>
  when no member of the parent has a name that contains it; a \<open>TypeError\<close> as soon as
  one has.
\<close>

lemma indexed_name_cases:
  "indexed_name ks nm =
     (if list_ex (contains nm) ks then Inl TypeError else Inr (nm @ ''000''))"
  by (simp add: indexed_name_none indexed_name_some)

text \<open>
  Claim C6 on the second of its examples. In a new file the indexed group \<open>Run_\<close> is
  created as \<open>Run_000\<close>, as the claim says. Written again, beside \<open>Run_000\<close>, the
  claim says \<open>Run_001\<close>: lines 259 and 260 take the last matching key, parse the number
  after its last underscore and add one. But line 259 indexes \<^verbatim>\<open>h5_group.keys()\<close>,
  which on Python 3 is a view that cannot be indexed, so \<^verbatim>\<open>_create_group\<close> raises
  \<open>TypeError\<close> and creates nothing.
\<close>

theorem indexed_group_beside_sibling_raises:
  "create_group new_file [] run_group
     = Inr (([''Run_000''], MicroDataGroup ''Run_000'' ''/'' [] True []), one_run)
   \<and> create_group one_run [] run_group = Inl (TypeError, one_run)"
  using first_run second_run_raises by simp
subsection \<open>A name that exists already\<close>

lemma create_dataset_duplicate:
  "is_group st h \<Longrightarrow> name d \<in> set (h5_keys st h) \<Longrightarrow>
   create_dataset st h (MicroDataset d) = Inl (ValueError, st)"
  by (simp add: create_dataset_def)

text \<open>
  Claim C4. \<^verbatim>\<open>_create_dataset\<close> on a name that is a member of the parent raises
  \<open>ValueError\<close> and leaves the state as it was. \<^verbatim>\<open>_create_group\<close> on a group whose
  final name \<open>nm'\<close> is a member of the parent returns the handle of that member: no
  object is created, the file stays open, and only the attributes of that member
  change. (The attributes of the descriptor are such that the normalizer accepts each of
  them; a value that is \<open>None\<close> is skipped.)
\<close>

theorem duplicate_dataset_raises_duplicate_group_reused:
  "(is_group st h \<and> name d \<in> set (h5_keys st h)
      \<longrightarrow> create_dataset st h (MicroDataset d) = Inl (ValueError, st))
   \<and> (is_group st h
        \<and> (if ind then indexed_name (h5_keys st h) nm else Inr nm) = Inr nm'
        \<and> nm' \<in> set (h5_keys st h)
        \<and> list_all (\<lambda>(k, v). v = Plain PyNone \<or> \<not> isl (clean_string_att v)) ats
      \<longrightarrow> (\<exists>st'. create_group st h (MicroDataGroup nm par ats ind chs)
                   = Inr ((h @ [nm'], MicroDataGroup nm' par ats ind chs), st')
              \<and> objs st' = objs st \<and> closed st' = closed st
              \<and> (\<forall>p. p \<noteq> h @ [nm'] \<longrightarrow> h5attrs st' p = h5attrs st p)))"
proof (intro conjI impI)
  assume "is_group st h \<and> name d \<in> set (h5_keys st h)"
  then show "create_dataset st h (MicroDataset d) = Inl (ValueError, st)"
    by (simp add: create_dataset_duplicate)
next
  assume a: "is_group st h
        \<and> (if ind then indexed_name (h5_keys st h) nm else Inr nm) = Inr nm'
        \<and> nm' \<in> set (h5_keys st h)
        \<and> list_all (\<lambda>(k, v). v = Plain PyNone \<or> \<not> isl (clean_string_att v)) ats"
  then have att: "attach_group st h nm' = Inr (h @ [nm'], st)"
    by (simp add: attach_group_existing)
  from a write_group_attrs_ok[of ats st "h @ [nm']"] obtain st' where
    w: "write_group_attrs st (h @ [nm']) ats = Inr ((), st')" "objs st' = objs st"
       "closed st' = closed st" "\<forall>p. p \<noteq> h @ [nm'] \<longrightarrow> h5attrs st' p = h5attrs st p"
    by blast
  have "create_group st h (MicroDataGroup nm par ats ind chs)
          = Inr ((h @ [nm'], MicroDataGroup nm' par ats ind chs), st')"
    using a att w(1) by (simp add: create_group_def)
  with w show "\<exists>st'. create_group st h (MicroDataGroup nm par ats ind chs)
                   = Inr ((h @ [nm'], MicroDataGroup nm' par ats ind chs), st')
              \<and> objs st' = objs st \<and> closed st' = closed st
              \<and> (\<forall>p. p \<noteq> h @ [nm'] \<longrightarrow> h5attrs st' p = h5attrs st p)"
    by blast
qed

theorem duplicate_dataset_raises_duplicate_group_reused_witness:
  "create_dataset sample_file [] (MicroDataset sample_dataset) = Inl (ValueError, sample_file)
   \<and> (\<exists>st'. create_group sample_file []
                 (MicroDataGroup ''Measurement'' ''/'' [(''units'', Plain (PyStr ''nm''))] False [])
               = Inr (([''Measurement''],
                       MicroDataGroup ''Measurement'' ''/'' [(''units'', Plain (PyStr ''nm''))] False []),
                      st')
            \<and> objs st' = objs sample_file)"
proof
  have "is_group sample_file [] \<and> name sample_dataset \<in> set (h5_keys sample_file [])"
    by (simp add: sample_file_root sample_dataset_def)
  with duplicate_dataset_raises_duplicate_group_reused[of sample_file "[]" sample_dataset]
  show "create_dataset sample_file [] (MicroDataset sample_dataset) = Inl (ValueError, sample_file)"
    by blast
next
  have "is_group sample_file []
        \<and> (if False then indexed_name (h5_keys sample_file []) ''Measurement''
            else Inr ''Measurement'') = Inr ''Measurement''
        \<and> ''Measurement'' \<in> set (h5_keys sample_file [])
        \<and> list_all (\<lambda>(k, v). v = Plain PyNone \<or> \<not> isl (clean_string_att v))
            [(''units'', Plain (PyStr ''nm''))]"
    by (simp add: sample_file_root)
  with duplicate_dataset_raises_duplicate_group_reused[of sample_file "[]" sample_dataset False
      "''Measurement''" "''Measurement''" "[(''units'', Plain (PyStr ''nm''))]" "''/''" "[]"]
  show "\<exists>st'. create_group sample_file []
                 (MicroDataGroup ''Measurement'' ''/'' [(''units'', Plain (PyStr ''nm''))] False [])
               = Inr (([''Measurement''],
                       MicroDataGroup ''Measurement'' ''/'' [(''units'', Plain (PyStr ''nm''))] False []),
                      st')
            \<and> objs st' = objs sample_file"
    by auto
qed
subsection \<open>The attributes every group carries\<close>

text \<open>
  Claim C10. A group descriptor, as \<^verbatim>\<open>MicroDataGroup.__init__\<close> builds it, maps
  \<open>machine_id\<close> to the host's name and \<open>timestamp\<close> to the time stamp, whatever
  attributes the caller gave (none, or a dictionary that has these keys already). When
  \<^verbatim>\<open>_create_group\<close> returns for that descriptor, the group in the file has both
  attributes with these values; and when \<^verbatim>\<open>write\<close> returns for such a descriptor
  that stands for the file itself (empty name, parent \<open>/\<close>), the file has them.
\<close>

theorem group_carries_machine_id_and_timestamp:
  "map_of (gattrs (MicroDataGroup_init fqdn stamp nm par ats chs)) ''machine_id''
      = Some (Plain (PyStr fqdn))
   \<and> map_of (gattrs (MicroDataGroup_init fqdn stamp nm par ats chs)) ''timestamp''
      = Some (Plain (PyStr stamp))
   \<and> (distinct (map fst (case ats of None \<Rightarrow> [] | Some a \<Rightarrow> a))
        \<and> create_group st h (MicroDataGroup_init fqdn stamp nm par ats chs) = Inr ((h', g'), st')
      \<longrightarrow> map_of (h5attrs st' h') ''machine_id'' = Some (Plain (PyStr fqdn))
        \<and> map_of (h5attrs st' h') ''timestamp'' = Some (Plain (PyStr stamp)))
   \<and> (distinct (map fst (case ats of None \<Rightarrow> [] | Some a \<Rightarrow> a))
        \<and> write_data version st (Node (MicroDataGroup_init fqdn stamp [] None ats chs))
            = Inr (r, st'')
      \<longrightarrow> map_of (h5attrs st'' []) ''machine_id'' = Some (Plain (PyStr fqdn))
        \<and> map_of (h5attrs st'' []) ''timestamp'' = Some (Plain (PyStr stamp)))"
proof -
  let ?a0 = "case ats of None \<Rightarrow> [] | Some a \<Rightarrow> a"
  let ?a2 = "dict_set (dict_set ?a0 ''machine_id'' (Plain (PyStr fqdn)))
               ''timestamp'' (Plain (PyStr stamp))"
  have ga: "gattrs (MicroDataGroup_init fqdn stamp n p ats chs) = ?a2" for n p
    by (simp add: MicroDataGroup_init_def Let_def gattrs_add_children split: option.splits)
  have m: "map_of ?a2 ''machine_id'' = Some (Plain (PyStr fqdn))"
    and t: "map_of ?a2 ''timestamp'' = Some (Plain (PyStr stamp))"
    by (simp_all add: map_of_dict_set)
  have im: "(''machine_id'', Plain (PyStr fqdn)) \<in> set ?a2"
    and it: "(''timestamp'', Plain (PyStr stamp)) \<in> set ?a2"
    using m t by (metis map_of_SomeD)+
  have d: "distinct (map fst ?a2)" if "distinct (map fst ?a0)"
    using that by (simp add: distinct_dict_set)
  have grp: "map_of (h5attrs st' h') ''machine_id'' = Some (Plain (PyStr fqdn))
        \<and> map_of (h5attrs st' h') ''timestamp'' = Some (Plain (PyStr stamp))"
    if a: "distinct (map fst ?a0)
        \<and> create_group st h (MicroDataGroup_init fqdn stamp nm par ats chs) = Inr ((h', g'), st')"
  proof -
    obtain n p i cs where G: "MicroDataGroup_init fqdn stamp nm par ats chs = MicroDataGroup n p ?a2 i cs"
      using ga[of nm par]
      by (cases "MicroDataGroup_init fqdn stamp nm par ats chs")
         (auto simp: MicroDataGroup_init_def Let_def add_children_def split: option.splits)
    from a G create_group_Inr[of st h n p ?a2 i cs h' g' st'] obtain st1 where
      w: "write_group_attrs st1 h' ?a2 = Inr ((), st')" by auto
    from write_group_attrs_text[OF w d im] write_group_attrs_text[OF w d it] a
    show ?thesis by simp
  qed
  have root: "map_of (h5attrs st'' []) ''machine_id'' = Some (Plain (PyStr fqdn))
        \<and> map_of (h5attrs st'' []) ''timestamp'' = Some (Plain (PyStr stamp))"
    if a: "distinct (map fst ?a0)
        \<and> write_data version st (Node (MicroDataGroup_init fqdn stamp [] None ats chs))
            = Inr (r, st'')"
  proof -
    obtain cs where G: "MicroDataGroup_init fqdn stamp [] None ats chs
                          = MicroDataGroup [] ''/'' ?a2 False cs"
      by (cases chs) (auto simp: MicroDataGroup_init_def Let_def add_children_def)
    from a G have w: "write_data version st (Node (MicroDataGroup [] ''/'' ?a2 False cs))
                        = Inr (r, st'')" by simp
    from write_data_root_attrs[OF w d im] write_data_root_attrs[OF w d it] a
    show ?thesis by simp
  qed
  from ga[of nm par] m t grp root show ?thesis by simp
qed

theorem group_carries_machine_id_and_timestamp_witness:
  "(\<exists>st'. create_group new_file [] sample_group = Inr (([''Measurement''], sample_group), st')
      \<and> map_of (h5attrs st' [''Measurement'']) ''machine_id''
          = Some (Plain (PyStr ''host.example.org''))
      \<and> map_of (h5attrs st' [''Measurement'']) ''timestamp''
          = Some (Plain (PyStr ''2017_06_01-12_00_00'')))
   \<and> (\<exists>r st'. write_data ''0.59.8'' new_file (Node sample_root) = Inr (r, st')
      \<and> map_of (h5attrs st' []) ''machine_id'' = Some (Plain (PyStr ''host.example.org''))
      \<and> map_of (h5attrs st' []) ''timestamp'' = Some (Plain (PyStr ''2017_06_01-12_00_00'')))"
proof
  from sample_group_written obtain st' where
    e: "create_group new_file [] sample_group = Inr (([''Measurement''], sample_group), st')"
    by blast
  have d: "distinct (map fst (case Some [(''machine_id'', Plain (PyStr ''other''))] of
                                None \<Rightarrow> [] | Some a \<Rightarrow> a))"
    by simp
  from group_carries_machine_id_and_timestamp[of "''host.example.org''" "''2017_06_01-12_00_00''"
      "''Measurement''" None "Some [(''machine_id'', Plain (PyStr ''other''))]" None new_file "[]"
      "[''Measurement'']" sample_group st']
    d e
  have "map_of (h5attrs st' [''Measurement'']) ''machine_id''
          = Some (Plain (PyStr ''host.example.org''))
      \<and> map_of (h5attrs st' [''Measurement'']) ''timestamp''
          = Some (Plain (PyStr ''2017_06_01-12_00_00''))"
    unfolding sample_group_def by blast
  with e show "\<exists>st'. create_group new_file [] sample_group
                 = Inr (([''Measurement''], sample_group), st')
      \<and> map_of (h5attrs st' [''Measurement'']) ''machine_id''
          = Some (Plain (PyStr ''host.example.org''))
      \<and> map_of (h5attrs st' [''Measurement'']) ''timestamp''
          = Some (Plain (PyStr ''2017_06_01-12_00_00''))"
    by blast
next
  from sample_root_written obtain r st' where
    e: "write_data ''0.59.8'' new_file (Node sample_root) = Inr (r, st')" by blast
  have d: "distinct (map fst (case None :: attrs_dict option of None \<Rightarrow> [] | Some a \<Rightarrow> a))"
    by simp
  from group_carries_machine_id_and_timestamp[of "''host.example.org''" "''2017_06_01-12_00_00''"
      "[]" None None None new_file "[]" "[]" sample_root new_file "''0.59.8''" r st']
    d e
  have "map_of (h5attrs st' []) ''machine_id'' = Some (Plain (PyStr ''host.example.org''))
      \<and> map_of (h5attrs st' []) ''timestamp'' = Some (Plain (PyStr ''2017_06_01-12_00_00''))"
    unfolding sample_root_def by blast
  with e show "\<exists>r st'. write_data ''0.59.8'' new_file (Node sample_root) = Inr (r, st')
      \<and> map_of (h5attrs st' []) ''machine_id'' = Some (Plain (PyStr ''host.example.org''))
      \<and> map_of (h5attrs st' []) ''timestamp'' = Some (Plain (PyStr ''2017_06_01-12_00_00''))"
    by blast
qed
subsection \<open>Datasets that only reserve space\<close>

text \<open>
  Claim C2. For a dataset descriptor that is not resizable and has a \<open>maxshape\<close> that
  is not empty, \<^verbatim>\<open>_create_dataset\<close> does the same, raising or returning, whatever
  the data of the descriptor are, present or not: the data are never read. Whenever it
  returns, the dataset in the file has the shape \<open>maxshape\<close>, the dtype of the
  descriptor, and holds the fill value.
\<close>

theorem preallocated_dataset_ignores_data:
  assumes "\<not> resizable d" and "maxshape d = Some ms" and "ms \<noteq> []"
  shows "(\<forall>p. create_dataset st h (MicroDataset (d\<lparr>data := p\<rparr>))
                = create_dataset st h (MicroDataset d))
     \<and> (\<forall>h' st'. create_dataset st h (MicroDataset d) = Inr (h', st') \<longrightarrow>
          h' = h @ [name d]
          \<and> (\<exists>sh. all_dims ms = Some sh
               \<and> objs st' h' = Some (H5Dataset \<lparr> ds_shape = sh, ds_dtype = dtype d,
                      ds_maxshape = None, ds_chunks = chunking d,
                      ds_compression = compression d, ds_content = Fill \<rparr>)))"
proof (intro conjI allI impI)
  fix p
  show "create_dataset st h (MicroDataset (d\<lparr>data := p\<rparr>)) = create_dataset st h (MicroDataset d)"
    using assms
    by (simp add: create_dataset_def create_empty_dset_def cong: sum.case_cong)
next
  fix h' st'
  assume e: "create_dataset st h (MicroDataset d) = Inr (h', st')"
  from create_dataset_Inr[OF e] assms obtain st1 where
    b: "create_dset_guarded st (create_empty_dset st h d) = Inr (h', st1)"
    and w: "write_attributes st1 h' (attrs d) = Inr ((), st')"
    by auto
  from create_dset_guarded_Inr[OF b]
  have c: "h5_create_dataset st h
       \<lparr> rq_name = name d, rq_shape = maxshape d, rq_data = None,
         rq_dtype = dtype d, rq_chunks = chunking d,
         rq_compression = compression d, rq_maxshape = None \<rparr> = Inr (h', st1)"
    by (simp add: create_empty_dset_def)
  from h5_create_dataset_Inr[OF c] assms(2) write_attributes_objs[OF w]
  show "h' = h @ [name d]"
    and "\<exists>sh. all_dims ms = Some sh
          \<and> objs st' h' = Some (H5Dataset \<lparr> ds_shape = sh, ds_dtype = dtype d,
                 ds_maxshape = None, ds_chunks = chunking d,
                 ds_compression = compression d, ds_content = Fill \<rparr>)"
    by auto
qed

theorem preallocated_dataset_ignores_data_witness:
  "\<exists>st'. create_dataset new_file [] (MicroDataset prealloc_dataset) = Inr ([''Raw_Data''], st')
      \<and> objs st' [''Raw_Data''] = Some (H5Dataset \<lparr> ds_shape = [4, 8], ds_dtype = Some ''float16'',
             ds_maxshape = None, ds_chunks = Some [Some 1, Some 8],
             ds_compression = Some ''gzip'', ds_content = Fill \<rparr>)
      \<and> create_dataset new_file [] (MicroDataset (prealloc_dataset\<lparr>data := None\<rparr>))
           = Inr ([''Raw_Data''], st')"
proof -
  from prealloc_written obtain st' where
    e: "create_dataset new_file [] (MicroDataset prealloc_dataset) = Inr ([''Raw_Data''], st')"
    by blast
  have "\<not> resizable prealloc_dataset" "maxshape prealloc_dataset = Some [Some 4, Some 8]"
    "[Some (4::int), Some 8] \<noteq> []"
    by (simp_all add: prealloc_dataset_def)
  from preallocated_dataset_ignores_data[OF this, of new_file "[]"] e all_dims_4_8
  have "objs st' [''Raw_Data''] = Some (H5Dataset \<lparr> ds_shape = [4, 8], ds_dtype = Some ''float16'',
             ds_maxshape = None, ds_chunks = Some [Some 1, Some 8],
             ds_compression = Some ''gzip'', ds_content = Fill \<rparr>)
      \<and> create_dataset new_file [] (MicroDataset (prealloc_dataset\<lparr>data := None\<rparr>))
           = Inr ([''Raw_Data''], st')"
    by (auto simp: prealloc_dataset_def)
  with e show ?thesis by blast
qed
subsection \<open>Resizable datasets\<close>

text \<open>
  Claim C3. For a resizable dataset descriptor, \<^verbatim>\<open>_create_dataset\<close> does the same,
  raising or returning, whatever the \<open>maxshape\<close> of the descriptor is. Whenever it
  returns, the descriptor has data, the dataset in the file has the shape and the
  elements of the data, and its maximal shape is \<open>None\<close> (unlimited) on every axis.
\<close>

theorem resizable_dataset_unlimited_on_every_axis:
  assumes "resizable d"
  shows "(\<forall>m. create_dataset st h (MicroDataset (d\<lparr>maxshape := m\<rparr>))
                = create_dataset st h (MicroDataset d))
     \<and> (\<forall>h' st'. create_dataset st h (MicroDataset d) = Inr (h', st') \<longrightarrow>
          h' = h @ [name d]
          \<and> (\<exists>p. data d = Some p
               \<and> objs st' h' = Some (H5Dataset \<lparr> ds_shape = shape p, ds_dtype = Some (pdtype p),
                      ds_maxshape = Some (replicate (length (shape p)) None),
                      ds_chunks = chunking d, ds_compression = compression d,
                      ds_content = Written (elems p) \<rparr>)))"
proof (intro conjI allI impI)
  fix m
  show "create_dataset st h (MicroDataset (d\<lparr>maxshape := m\<rparr>))
          = create_dataset st h (MicroDataset d)"
    using assms
    by (simp add: create_dataset_def create_resizeable_dset_def Let_def
        cong: sum.case_cong option.case_cong)
next
  fix h' st'
  assume e: "create_dataset st h (MicroDataset d) = Inr (h', st')"
  from create_dataset_Inr[OF e] assms obtain st1 where
    b: "create_dset_guarded st (create_resizeable_dset st h d) = Inr (h', st1)"
    and w: "write_attributes st1 h' (attrs d) = Inr ((), st')"
    by auto
  from create_dset_guarded_Inr[OF b] obtain p where p: "data d = Some p"
    and c: "h5_create_dataset st h
       \<lparr> rq_name = name d, rq_shape = None, rq_data = Some p,
         rq_dtype = Some (pdtype p), rq_chunks = chunking d,
         rq_compression = compression d,
         rq_maxshape = Some (replicate (length (shape p)) None) \<rparr> = Inr (h', st1)"
    by (auto simp: create_resizeable_dset_def Let_def map_replicate_const split: option.splits)
  from h5_create_dataset_Inr[OF c] write_attributes_objs[OF w] p
  show "h' = h @ [name d]"
    and "\<exists>p. data d = Some p
          \<and> objs st' h' = Some (H5Dataset \<lparr> ds_shape = shape p, ds_dtype = Some (pdtype p),
                 ds_maxshape = Some (replicate (length (shape p)) None), ds_chunks = chunking d,
                 ds_compression = compression d, ds_content = Written (elems p) \<rparr>)"
    by auto
qed

theorem resizable_dataset_unlimited_on_every_axis_witness:
  "\<exists>st'. create_dataset new_file [] (MicroDataset expandable_dataset) = Inr ([''Raw_Data''], st')
      \<and> objs st' [''Raw_Data''] = Some (H5Dataset \<lparr> ds_shape = [1, 4],
             ds_dtype = Some ''complex64'',
             ds_maxshape = Some [None, None], ds_chunks = Some [Some 1, Some 4],
             ds_compression = Some ''gzip'', ds_content = Written [0, 0, 0, 0] \<rparr>)
      \<and> create_dataset new_file [] (MicroDataset (expandable_dataset\<lparr>maxshape := None\<rparr>))
           = Inr ([''Raw_Data''], st')"
proof -
  from expandable_written obtain st' where
    e: "create_dataset new_file [] (MicroDataset expandable_dataset) = Inr ([''Raw_Data''], st')"
    by blast
  have "resizable expandable_dataset" by (simp add: expandable_dataset_def)
  from resizable_dataset_unlimited_on_every_axis[OF this, of new_file "[]"] e
  have "objs st' [''Raw_Data''] = Some (H5Dataset \<lparr> ds_shape = [1, 4],
             ds_dtype = Some ''complex64'',
             ds_maxshape = Some [None, None], ds_chunks = Some [Some 1, Some 4],
             ds_compression = Some ''gzip'', ds_content = Written [0, 0, 0, 0] \<rparr>)
      \<and> create_dataset new_file [] (MicroDataset (expandable_dataset\<lparr>maxshape := None\<rparr>))
           = Inr ([''Raw_Data''], st')"
    by (auto simp: expandable_dataset_def numeral_2_eq_2)
  with e show ?thesis by blast
qed
subsection \<open>An input that is no descriptor\<close>

text \<open>
  Claim C7, as the specification states it: \<^verbatim>\<open>write\<close> on an object that is no
  \<open>MicroData\<close> raises \<open>TypeError\<close> and has done nothing to the store. It fails: line
  169 stamps the version on the file before line 172 looks at the type of the input.
\<close>

theorem non_descriptor_leaves_store_untouched_counterexample:
  "write_data ''0.59.8'' new_file (Other (PyInt 5)) \<noteq> Inl (TypeError, new_file)"
proof
  assume "write_data ''0.59.8'' new_file (Other (PyInt 5)) = Inl (TypeError, new_file)"
  then have "h5_set_attr new_file [] ''Pycroscopy version'' (Plain (PyStr ''0.59.8'')) = new_file"
    by (simp add: write_data_def)
  then have "h5attrs (h5_set_attr new_file [] ''Pycroscopy version'' (Plain (PyStr ''0.59.8''))) []
      = h5attrs new_file []" by simp
  then show False by (simp add: h5_set_attr_def new_file_def)
qed

text \<open>
  Claim C7, amended: \<^verbatim>\<open>write\<close> on an object that is no \<open>MicroData\<close> raises
  \<open>TypeError\<close>, and all it has done to the store is to set the attribute
  \<open>Pycroscopy version\<close> of the file to the version of the writer: no object is created
  and the file is not closed.
\<close>

theorem non_descriptor_raises_after_version_stamp:
  "write_data version st (Other v)
     = Inl (TypeError, h5_set_attr st [] ''Pycroscopy version'' (Plain (PyStr version)))
   \<and> objs (state_of (write_data version st (Other v))) = objs st
   \<and> closed (state_of (write_data version st (Other v))) = closed st"
  by (simp add: write_data_def state_of_def)
subsection \<open>Normalizing twice\<close>

lemma np_array_S_is_arr: "np_array_S x = Inr y \<Longrightarrow> is_arr y"
proof (cases x)
  case (PySeq xs)
  assume a: "np_array_S x = Inr y"
  show ?thesis
  proof (cases "sequence (map np_array_S xs)")
    case (Inl e)
    with a PySeq show ?thesis by simp
  next
    case (Inr ys)
    with a PySeq show ?thesis by (cases ys) (auto split: if_splits)
  qed
qed (auto split: sum.splits)

lemma sequence_Inr:
  "sequence rs = Inr ys \<Longrightarrow> length ys = length rs \<and> (\<forall>i < length rs. rs ! i = Inr (ys ! i))"
proof (induction rs arbitrary: ys)
  case Nil
  then show ?case by simp
next
  case (Cons r rs)
  from Cons.prems obtain x xs where r: "r = Inr x" and xs: "sequence rs = Inr xs"
    and ys: "ys = x # xs"
    by (auto split: sum.splits)
  from Cons.IH[OF xs] have l: "length xs = length rs"
    and n: "\<forall>i < length rs. rs ! i = Inr (xs ! i)" by simp_all
  have "(r # rs) ! i = Inr (ys ! i)" if "i < length (r # rs)" for i
    using that r ys n by (cases i) simp_all
  with l ys show ?case by simp
qed

lemma sequence_np_array_S_is_arr:
  assumes a: "sequence (map np_array_S xs) = Inr ys" and y: "y \<in> set ys"
  shows "is_arr y"
proof -
  from y obtain i where i: "i < length ys" "ys ! i = y" by (auto simp: in_set_conv_nth)
  from sequence_Inr[OF a] i have "np_array_S (xs ! i) = Inr y" by auto
  then show ?thesis by (rule np_array_S_is_arr)
qed

lemma as_item_not_str: "is_arr y \<Longrightarrow> \<not> is_str_or_bytes (as_item y)"
  by (cases y) auto

lemma clean_pyval_seq_idem:
  assumes "clean_pyval (PySeq xs) = Inr v"
  shows "clean_pyval v = Inr v"
proof (cases "list_ex is_str_or_bytes xs")
  case False
  with assms have "v = PySeq xs" by (simp add: clean_pyval_def)
  with assms show ?thesis by simp
next
  case True
  with assms have n: "np_array_S (PySeq xs) = Inr v" by (simp add: clean_pyval_def)
  obtain ys where ys: "sequence (map np_array_S xs) = Inr ys"
    using n by (cases "sequence (map np_array_S xs)") auto
  have v: "v = NdArrayS (map as_item ys)"
    using n ys by (cases ys) (auto split: if_splits)
  have "\<not> list_ex is_str_or_bytes (map as_item ys)"
    using sequence_np_array_S_is_arr[OF ys] as_item_not_str by (auto simp: list_ex_iff)
  then show ?thesis by (simp add: v clean_pyval_def)
qed

text \<open>
  On text, and on a list or tuple (with text or bytes in it or not), normalizing the
  normalized value gives it back.
\<close>

lemma clean_string_att_text_and_collections_idempotent:
  "clean_string_att (Plain (PyStr s)) = Inr (Plain (PyStr s))"
  "clean_string_att (Plain (PySeq xs)) = Inr v \<Longrightarrow> clean_string_att v = Inr v"
proof -
  show "clean_string_att (Plain (PyStr s)) = Inr (Plain (PyStr s))"
    by (simp add: clean_string_att_def clean_pyval_def)
  assume a: "clean_string_att (Plain (PySeq xs)) = Inr v"
  then obtain v' where v': "clean_pyval (PySeq xs) = Inr v'" "v = Plain v'"
    by (auto simp: clean_string_att_def split: sum.splits)
  from clean_pyval_seq_idem[OF v'(1)] v'(2) show "clean_string_att v = Inr v"
    by (simp add: clean_string_att_def)
qed

text \<open>
  Claim C9 on a \<open>numpy.str_\<close> scalar. The scalar is iterable and its characters are
  \<open>str\<close>, so line 445 turns it into a zero-dimensional array of bytes before line 446
  can turn it into text; normalizing that array raises \<open>TypeError\<close>, since a
  zero-dimensional array cannot be iterated. So \<open>normalize(normalize(x))\<close> is not
  \<open>normalize(x)\<close> for \<open>x = numpy.str_('abc')\<close>.
\<close>

theorem wide_string_normalized_twice_raises:
  "clean_string_att (Plain (NpStr ''abc'')) = Inr (Plain (NdArrayS0 ''abc''))
   \<and> clean_string_att (Plain (NdArrayS0 ''abc'')) = Inl TypeError"
proof -
  have "encode_ascii ''abc'' = Inr ''abc''" by code_simp
  then show ?thesis by (simp add: clean_string_att_def clean_pyval_def)
qed
subsection \<open>The order of the returned handles\<close>

text \<open>
  Claim C1, as the specification states it: the list \<^verbatim>\<open>write\<close> returns has the
  handle of each group before the handles of its descendants. It fails: \<open>__populate\<close>
  appends the handle of a group (line 232) after the loop over its children (lines 227
  and 228). For a group \<open>Channel\<close> with a dataset \<open>Raw_Data\<close>, the dataset comes first.
\<close>

theorem returned_handles_preorder_counterexample:
  "\<not> isl (write_data ''0.59.8'' new_file (Node sample_tree))
   \<and> \<not> spec_preorder (fst (fst (projr (write_data ''0.59.8'' new_file (Node sample_tree)))))"
proof -
  from sample_tree_written obtain g st' where
    "write_data ''0.59.8'' new_file (Node sample_tree)
     = Inr (([[''Measurement'', ''Channel'', ''Raw_Data''], [''Measurement'', ''Channel'']], g), st')"
    by blast
  then show ?thesis by simp
qed

text \<open>
  Claim C1, amended: whenever \<^verbatim>\<open>write\<close> returns for a tree whose root is a group,
  the returned list is in strict post-order. It holds, for the children of the root in
  their order, the handles of each subtree with every group after all of its
  descendants; the handle of the root itself is not in the list. The descriptors the
  handles belong to are those of the input, child by child.
\<close>

theorem returned_handles_in_postorder:
  assumes "write_data version st (Node (MicroDataGroup nm par ats ind chs)) = Inr ((ref_list, g'), st')"
  shows "ref_list = concat (map (\<lambda>c. map node_path (postorder c)) (children g'))
       \<and> resolves_list chs (children g')"
proof -
  from assms obtain root nm' st1 chs' where
    c: "populate_children st1 chs root [] = Inr ((ref_list, chs'), st')"
    and g: "g' = MicroDataGroup nm' par ats ind chs'"
    by (auto simp: write_data_def Let_def split: sum.splits)
  from populate_postorder(2)[of st1 chs root "[]" ref_list chs' st'] c g show ?thesis by simp
qed

theorem returned_handles_in_postorder_witness:
  "\<exists>ref_list g' st'. write_data ''0.59.8'' new_file (Node sample_tree) = Inr ((ref_list, g'), st')
     \<and> ref_list = concat (map (\<lambda>c. map node_path (postorder c)) (children g'))
     \<and> ref_list = [[''Measurement'', ''Channel'', ''Raw_Data''], [''Measurement'', ''Channel'']]"
proof -
  from sample_tree_written obtain g st' where
    e: "write_data ''0.59.8'' new_file (Node (MicroDataGroup ''Measurement'' ''/'' [] False
     [MicroDataGroup ''Channel'' ''/Measurement'' [] False [MicroDataset sample_dataset]]))
     = Inr (([[''Measurement'', ''Channel'', ''Raw_Data''], [''Measurement'', ''Channel'']], g), st')"
    unfolding sample_tree_def by blast
  from returned_handles_in_postorder[OF e] e show ?thesis unfolding sample_tree_def by blast
qed
subsection \<open>The header of the region labels\<close>

text \<open>
  Claim C5, as the specification states it: the axis of the header is the first axis on
  which any region has a slice with a start, and the header is written when there is
  one. It fails: lines 368 to 372 look at the tuple of the first region only. Here the
  second region starts at 1 on the first axis, the first region has no start, and the
  writer warns and writes no header.
\<close>

theorem labels_header_any_region_counterexample:
  "start (snd (late_start_labels ! 1) ! 0) = Some 1
   \<and> \<not> isl (write_attributes sample_file [''Raw_Data''] [(''labels'', Labels late_start_labels)])
   \<and> map_of (h5attrs (state_of (write_attributes sample_file [''Raw_Data'']
          [(''labels'', Labels late_start_labels)])) [''Raw_Data'']) ''labels'' = None
   \<and> warned (state_of (write_attributes sample_file [''Raw_Data'']
          [(''labels'', Labels late_start_labels)])) = [NoRegionLabels ''Raw_Data'']"
  by (simp add: late_start_labels_def write_labels_def dset_shape_sample path_name_def state_of_def)
     (simp add: h5_set_attr_def sample_file_def new_file_def)

text \<open>
  Claim C5, amended. Let every region of a non-empty \<open>labels\<close> dictionary have as many
  slices as the dataset has dimensions. Then a region reference is written for each
  region, and the axis of the header is the first axis on which the slice of the first
  region has a start:
  \<^item> if the first region has no start on any axis, no header is written and the
    writer warns;
  \<^item> if there is such an axis, and on it the starts of the regions are distinct
    indices into a list as long as the number of regions, the header is that list with
    the name of each region at the index its start gives, and it is stored, normalized,
    as the attribute \<open>labels\<close>.
\<close>

theorem labels_header_from_first_region:
  assumes "labels = (first_name, first_sls) # others"
    and "list_all (\<lambda>(n, sls). length sls = length (dset_shape st h)) labels"
    and "distinct (map fst labels)"
  shows "\<exists>st1. write_region_references st h labels = Inr ((), st1)
      \<and> (\<forall>(n, sls) \<in> set labels. map_of (h5attrs st1 h) n = Some (RegionRef h sls))
      \<and> (list_all (\<lambda>sl. start sl = None) first_sls
           \<longrightarrow> write_labels st h ''labels'' (Labels labels)
                 = Inr ((), st1\<lparr>warned := warned st1 @
                        [NoRegionLabels (last (split_on CHR ''/'' (path_name h)))]\<rparr>))
      \<and> (\<forall>dimen. dimen < length first_sls \<and> start (first_sls ! dimen) \<noteq> None
              \<and> (\<forall>j < dimen. start (first_sls ! j) = None) \<and> valid_starts dimen labels
           \<longrightarrow> (\<exists>headers. length headers = length labels
                  \<and> (\<forall>(n, sls) \<in> set labels.
                        \<exists>i. start (sls ! dimen) = Some i \<and> headers ! nat i = PyStr n)
                  \<and> write_labels st h ''labels'' (Labels labels)
                      = (case clean_string_att (Plain (PySeq headers)) of
                           Inl e \<Rightarrow> Inl (e, st1)
                         | Inr v \<Rightarrow> Inr ((), h5_set_attr st1 h ''labels'' v))))"
proof -
  from write_region_references_ok[OF assms(2,3)] obtain st1 where
    w: "write_region_references st h labels = Inr ((), st1)"
    and a: "\<forall>(n, sls) \<in> set labels. map_of (h5attrs st1 h) n = Some (RegionRef h sls)"
    by blast
  have none: "write_labels st h ''labels'' (Labels labels)
                 = Inr ((), st1\<lparr>warned := warned st1 @
                        [NoRegionLabels (last (split_on CHR ''/'' (path_name h)))]\<rparr>)"
    if "list_all (\<lambda>sl. start sl = None) first_sls"
    using that w assms(1) find_dim_None[of first_sls]
    by (simp add: write_labels_def del: write_region_references.simps)
  have some: "\<exists>headers. length headers = length labels
                  \<and> (\<forall>(n, sls) \<in> set labels.
                        \<exists>i. start (sls ! dimen) = Some i \<and> headers ! nat i = PyStr n)
                  \<and> write_labels st h ''labels'' (Labels labels)
                      = (case clean_string_att (Plain (PySeq headers)) of
                           Inl e \<Rightarrow> Inl (e, st1)
                         | Inr v \<Rightarrow> Inr ((), h5_set_attr st1 h ''labels'' v))"
    if d: "dimen < length first_sls \<and> start (first_sls ! dimen) \<noteq> None
              \<and> (\<forall>j < dimen. start (first_sls ! j) = None) \<and> valid_starts dimen labels"
    for dimen
  proof -
    from d have fd: "find_dim first_sls = Some dimen" by (simp add: find_dim_Some)
    have "length first_sls = length (dset_shape st h)" using assms(1,2) by simp
    with d have dl: "dimen < length (dset_shape st h)" by simp
    have p1: "list_all (\<lambda>(n, sls). dimen < length sls \<and>
              (case start (sls ! dimen) of None \<Rightarrow> False
               | Some i \<Rightarrow> 0 \<le> i \<and> i < int (length labels))) labels"
      using d assms(2) dl unfolding valid_starts_def list_all_iff by auto
    have p2: "distinct (map (\<lambda>(n, sls). start (sls ! dimen)) labels)"
      using d by (simp add: valid_starts_def)
    have p3: "length (replicate (length labels) PyNone) = length labels" by simp
    from fill_headers_ok[OF p1 p2 p3] obtain headers where
      f: "fill_headers (replicate (length labels) PyNone) dimen labels = Inr headers"
      and l: "length headers = length labels"
      and c: "\<forall>(n, sls) \<in> set labels. \<exists>i. start (sls ! dimen) = Some i \<and> headers ! nat i = PyStr n"
      by auto
    have "write_labels st h ''labels'' (Labels labels)
            = (case clean_string_att (Plain (PySeq headers)) of
                 Inl e \<Rightarrow> Inl (e, st1)
               | Inr v \<Rightarrow> Inr ((), h5_set_attr st1 h ''labels'' v))"
      using w assms(1) fd f
      by (simp add: write_labels_def del: write_region_references.simps fill_headers.simps
          split: sum.splits)
    with l c show ?thesis by blast
  qed
  from w a none some show ?thesis by blast
qed

theorem labels_header_from_first_region_witness:
  "(\<exists>st1. write_region_references sample_file [''Raw_Data''] ab_labels = Inr ((), st1)
     \<and> map_of (h5attrs st1 [''Raw_Data'']) ''A''
          = Some (RegionRef [''Raw_Data''] [Slice (Some 0) (Some 1) None, Slice None None None])
     \<and> map_of (h5attrs st1 [''Raw_Data'']) ''B''
          = Some (RegionRef [''Raw_Data''] [Slice (Some 1) (Some 2) None, Slice None None None])
     \<and> write_labels sample_file [''Raw_Data''] ''labels'' (Labels ab_labels)
          = Inr ((), h5_set_attr st1 [''Raw_Data''] ''labels''
                       (Plain (NdArrayS [NpBytes ''A'', NpBytes ''B'']))))
   \<and> \<not> isl (write_labels sample_file [''Raw_Data''] ''labels'' (Labels whole_labels))
   \<and> last (warned (state_of (write_labels sample_file [''Raw_Data''] ''labels''
          (Labels whole_labels)))) = NoRegionLabels ''Raw_Data''"
proof -
  have first: "\<exists>st1. write_region_references sample_file [''Raw_Data''] ab_labels = Inr ((), st1)
     \<and> map_of (h5attrs st1 [''Raw_Data'']) ''A''
          = Some (RegionRef [''Raw_Data''] [Slice (Some 0) (Some 1) None, Slice None None None])
     \<and> map_of (h5attrs st1 [''Raw_Data'']) ''B''
          = Some (RegionRef [''Raw_Data''] [Slice (Some 1) (Some 2) None, Slice None None None])
     \<and> write_labels sample_file [''Raw_Data''] ''labels'' (Labels ab_labels)
          = Inr ((), h5_set_attr st1 [''Raw_Data''] ''labels''
                       (Plain (NdArrayS [NpBytes ''A'', NpBytes ''B''])))"
  proof -
  have 1: "ab_labels = (''A'', [Slice (Some 0) (Some 1) None, Slice None None None])
             # [(''B'', [Slice (Some 1) (Some 2) None, Slice None None None])]"
    by (simp add: ab_labels_def)
  have 2: "list_all (\<lambda>(n, sls). length sls = length (dset_shape sample_file [''Raw_Data'']))
             ab_labels"
    by (simp add: ab_labels_def dset_shape_sample)
  have 3: "distinct (map fst ab_labels)" by (simp add: ab_labels_def)
  from labels_header_from_first_region[OF 1 2 3] obtain st1 where
    w: "write_region_references sample_file [''Raw_Data''] ab_labels = Inr ((), st1)"
    and a: "\<forall>(n, sls) \<in> set ab_labels.
              map_of (h5attrs st1 [''Raw_Data'']) n = Some (RegionRef [''Raw_Data''] sls)"
    and s: "\<forall>dimen. dimen < length [Slice (Some 0) (Some 1) None, Slice None None None]
              \<and> start ([Slice (Some 0) (Some 1) None, Slice None None None] ! dimen) \<noteq> None
              \<and> (\<forall>j < dimen. start ([Slice (Some 0) (Some 1) None, Slice None None None] ! j) = None)
              \<and> valid_starts dimen ab_labels
           \<longrightarrow> (\<exists>headers. length headers = length ab_labels
                  \<and> (\<forall>(n, sls) \<in> set ab_labels.
                        \<exists>i. start (sls ! dimen) = Some i \<and> headers ! nat i = PyStr n)
                  \<and> write_labels sample_file [''Raw_Data''] ''labels'' (Labels ab_labels)
                      = (case clean_string_att (Plain (PySeq headers)) of
                           Inl e \<Rightarrow> Inl (e, st1)
                         | Inr v \<Rightarrow> Inr ((), h5_set_attr st1 [''Raw_Data''] ''labels'' v)))"
    by blast
  have "valid_starts 0 ab_labels" by (simp add: valid_starts_def ab_labels_def)
  with s[rule_format, of 0] obtain headers where
    l: "length headers = length ab_labels"
    and c: "\<forall>(n, sls) \<in> set ab_labels.
                        \<exists>i. start (sls ! 0) = Some i \<and> headers ! nat i = PyStr n"
    and wl: "write_labels sample_file [''Raw_Data''] ''labels'' (Labels ab_labels)
                      = (case clean_string_att (Plain (PySeq headers)) of
                           Inl e \<Rightarrow> Inl (e, st1)
                         | Inr v \<Rightarrow> Inr ((), h5_set_attr st1 [''Raw_Data''] ''labels'' v))"
    by auto
  from l have l2: "length headers = 2" by (simp add: ab_labels_def)
  from c have "headers ! 0 = PyStr ''A''" "headers ! 1 = PyStr ''B''"
    by (simp_all add: ab_labels_def)
  with l2 have "headers = [PyStr ''A'', PyStr ''B'']"
    by (cases headers; cases "tl headers") auto
  with wl have "write_labels sample_file [''Raw_Data''] ''labels'' (Labels ab_labels)
          = Inr ((), h5_set_attr st1 [''Raw_Data''] ''labels''
                       (Plain (NdArrayS [NpBytes ''A'', NpBytes ''B''])))"
    by (simp add: clean_headers_A_B)
  with w a show ?thesis by (auto simp: ab_labels_def)
  qed
  have second: "\<not> isl (write_labels sample_file [''Raw_Data''] ''labels'' (Labels whole_labels))
     \<and> last (warned (state_of (write_labels sample_file [''Raw_Data''] ''labels''
          (Labels whole_labels)))) = NoRegionLabels ''Raw_Data''"
  proof -
    have 1: "whole_labels = (''All'', [Slice None None None, Slice None None None]) # []"
      by (simp add: whole_labels_def)
    have 2: "list_all (\<lambda>(n, sls). length sls = length (dset_shape sample_file [''Raw_Data'']))
               whole_labels"
      by (simp add: whole_labels_def dset_shape_sample)
    have 3: "distinct (map fst whole_labels)" by (simp add: whole_labels_def)
    have 4: "list_all (\<lambda>sl. start sl = None) [Slice None None None, Slice None None None]"
      by simp
    from labels_header_from_first_region[OF 1 2 3] 4 obtain st1 where
      "write_labels sample_file [''Raw_Data''] ''labels'' (Labels whole_labels)
         = Inr ((), st1\<lparr>warned := warned st1 @
                [NoRegionLabels (last (split_on CHR ''/'' (path_name [''Raw_Data''])))]\<rparr>)"
      by blast
    then show ?thesis by (simp add: state_of_def path_name_def)
  qed
  from first second show ?thesis by blast
qed

end
